theory Spec2Isabelle
  imports Main
begin

section \<open>Python's \<open>datetime\<close>, as far as the coordinator uses it\<close>

text \<open>
  The coordinator works on timezone-aware UTC instants (\<open>dt_util.utcnow()\<close>). It reads
  \<open>.month\<close>, calls \<open>.replace\<close> and \<open>.weekday()\<close>, compares two instants and adds or
  subtracts a \<open>timedelta\<close> of whole days. Those operations of the standard library are
  modelled here after CPython's own algorithms on proleptic Gregorian ordinals
  (day 1 is 0001-01-01, the last day is 9999-12-31 with ordinal 3652059).
\<close>

record datetime =
  year :: int
  month :: int
  day :: int
  hour :: int
  minute :: int
  second :: int
  microsecond :: int

datatype error = OverflowError

definition MINYEAR :: int where "MINYEAR = 1"
definition MAXYEAR :: int where "MAXYEAR = 9999"
definition MAXORDINAL :: int where "MAXORDINAL = 3652059"

definition DAYS_IN_MONTH :: "int list" where
  "DAYS_IN_MONTH = [-1, 31, 28, 31, 30, 31, 30, 31, 31, 30, 31, 30, 31]"

definition DAYS_BEFORE_MONTH :: "int list" where
  "DAYS_BEFORE_MONTH = [-1, 0, 31, 59, 90, 120, 151, 181, 212, 243, 273, 304, 334]"

definition is_leap :: "int \<Rightarrow> bool" where
  "is_leap y \<longleftrightarrow> y mod 4 = 0 \<and> (y mod 100 \<noteq> 0 \<or> y mod 400 = 0)"

definition days_before_year :: "int \<Rightarrow> int" where
  "days_before_year y = (let p = y - 1 in p * 365 + p div 4 - p div 100 + p div 400)"

definition days_in_month :: "int \<Rightarrow> int \<Rightarrow> int" where
  "days_in_month y m = (if m = 2 \<and> is_leap y then 29 else DAYS_IN_MONTH ! nat m)"

definition days_before_month :: "int \<Rightarrow> int \<Rightarrow> int" where
  "days_before_month y m = DAYS_BEFORE_MONTH ! nat m + (if m > 2 \<and> is_leap y then 1 else 0)"

definition ymd2ord :: "int \<Rightarrow> int \<Rightarrow> int \<Rightarrow> int" where
  "ymd2ord y m d = days_before_year y + days_before_month y m + d"

definition DI400Y :: int where "DI400Y = 146097"
definition DI100Y :: int where "DI100Y = 36524"
definition DI4Y :: int where "DI4Y = 1461"

text \<open>
  \<open>_ord2ymd\<close>: the ordinal is split into 400-year, 100-year, 4-year and 1-year cycles;
  the last day of a 4-year or 400-year cycle is handled apart. The month and the day
  come from the zero-based day of the year (\<open>yday2md\<close>, the tail of \<open>_ord2ymd\<close>): the
  month is estimated by a shift (\<open>(n + 50) >> 5\<close>) and corrected when the estimate is
  too large.
\<close>

definition yday2md :: "bool \<Rightarrow> int \<Rightarrow> int \<times> int" where
  "yday2md leapyear n =
     (let m = (n + 50) div 32;
          preceding = DAYS_BEFORE_MONTH ! nat m + (if m > 2 \<and> leapyear then 1 else 0)
      in if preceding > n
         then let m = m - 1;
                  preceding = preceding
                    - (DAYS_IN_MONTH ! nat m + (if m = 2 \<and> leapyear then 1 else 0))
              in (m, n - preceding + 1)
         else (m, n - preceding + 1))"

definition ord2ymd :: "int \<Rightarrow> int \<times> int \<times> int" where
  "ord2ymd n0 =
     (let n = n0 - 1;
          n400 = n div DI400Y; n = n mod DI400Y;
          y = n400 * 400 + 1;
          n100 = n div DI100Y; n = n mod DI100Y;
          n4 = n div DI4Y; n = n mod DI4Y;
          n1 = n div 365; n = n mod 365;
          y = y + n100 * 100 + n4 * 4 + n1
      in if n1 = 4 \<or> n100 = 4 then (y - 1, 12, 31)
         else
           let leapyear = (n1 = 3 \<and> (n4 \<noteq> 24 \<or> n100 = 3))
           in (case yday2md leapyear n of (m, d) \<Rightarrow> (y, m, d)))"

definition toordinal :: "datetime \<Rightarrow> int" where
  "toordinal d = ymd2ord (year d) (month d) (day d)"

definition weekday :: "datetime \<Rightarrow> int" where
  "weekday d = (toordinal d + 6) mod 7"

text \<open>
  \<open>d + timedelta(days=k)\<close> (and \<open>d - timedelta(days=k)\<close> as \<open>d + timedelta(days=-k)\<close>):
  the date part moves by \<open>k\<close> ordinals, the time of day stays, and a result outside
  0001-01-01 .. 9999-12-31 raises \<open>OverflowError\<close>.
\<close>

definition add_days :: "datetime \<Rightarrow> int \<Rightarrow> error + datetime" where
  "add_days d k =
     (let n = toordinal d + k
      in if 0 < n \<and> n \<le> MAXORDINAL
         then (case ord2ymd n of (y, m, dd) \<Rightarrow> Inr (d\<lparr>year := y, month := m, day := dd\<rparr>))
         else Inl OverflowError)"

definition sub_days :: "datetime \<Rightarrow> int \<Rightarrow> error + datetime" where
  "sub_days d k = add_days d (- k)"

text \<open>
  Comparison of two aware instants with the same \<open>tzinfo\<close> compares the tuples
  (year, month, day, hour, minute, second, microsecond), as \<open>datetime._cmp\<close> does.
\<close>

fun tuple_cmp :: "int list \<Rightarrow> int list \<Rightarrow> int" where
  "tuple_cmp [] [] = 0"
| "tuple_cmp [] (y # ys) = -1"
| "tuple_cmp (x # xs) [] = 1"
| "tuple_cmp (x # xs) (y # ys) = (if x < y then -1 else if x > y then 1 else tuple_cmp xs ys)"

definition dt_tuple :: "datetime \<Rightarrow> int list" where
  "dt_tuple d = [year d, month d, day d, hour d, minute d, second d, microsecond d]"

definition dt_cmp :: "datetime \<Rightarrow> datetime \<Rightarrow> int" where
  "dt_cmp a b = tuple_cmp (dt_tuple a) (dt_tuple b)"

definition dt_ge :: "datetime \<Rightarrow> datetime \<Rightarrow> bool" where
  "dt_ge a b \<longleftrightarrow> dt_cmp a b \<ge> 0"

text \<open>The values a \<open>datetime\<close> object can hold: its constructor checks these ranges.\<close>

definition valid_datetime :: "datetime \<Rightarrow> bool" where
  "valid_datetime d \<longleftrightarrow>
     MINYEAR \<le> year d \<and> year d \<le> MAXYEAR \<and>
     1 \<le> month d \<and> month d \<le> 12 \<and>
     1 \<le> day d \<and> day d \<le> days_in_month (year d) (month d) \<and>
     0 \<le> hour d \<and> hour d < 24 \<and>
     0 \<le> minute d \<and> minute d < 60 \<and>
     0 \<le> second d \<and> second d < 60 \<and>
     0 \<le> microsecond d \<and> microsecond d < 1000000"

text \<open>
  The instant as a count of microseconds since the start of ordinal 0. It is not part
  of the program; it states what the comparison and the day arithmetic mean.
\<close>

definition instant :: "datetime \<Rightarrow> int" where
  "instant d =
     (((toordinal d * 24 + hour d) * 60 + minute d) * 60 + second d) * 1000000 + microsecond d"

definition DAY :: int where "DAY = 86400000000"

text \<open>The time of day in microseconds, and the date part of validity.\<close>

definition tod :: "datetime \<Rightarrow> int" where
  "tod d = ((hour d * 60 + minute d) * 60 + second d) * 1000000 + microsecond d"

definition valid_date :: "int \<Rightarrow> int \<Rightarrow> int \<Rightarrow> bool" where
  "valid_date y m d \<longleftrightarrow> 1 \<le> m \<and> m \<le> 12 \<and> 1 \<le> d \<and> d \<le> days_in_month y m"

section \<open>The usage store (\<open>coordinator.py\<close>)\<close>

text \<open>
  One entry of \<open>usage_data["models"]\<close>: the dictionary the \<open>defaultdict\<close> factory builds,
  with its twelve fixed keys.
\<close>

record model_stats =
  input_tokens :: int
  output_tokens :: int
  total_tokens :: int
  daily_input_tokens :: int
  daily_output_tokens :: int
  daily_total_tokens :: int
  weekly_input_tokens :: int
  weekly_output_tokens :: int
  weekly_total_tokens :: int
  monthly_input_tokens :: int
  monthly_output_tokens :: int
  monthly_total_tokens :: int

record usage_data =
  total_requests :: int
  daily_requests :: int
  weekly_requests :: int
  monthly_requests :: int
  last_reset_daily :: datetime
  last_reset_weekly :: datetime
  last_reset_monthly :: datetime
  models :: "string \<rightharpoonup> model_stats"

subsection \<open>\<open>get_period_start\<close>\<close>

definition get_period_start :: "string \<Rightarrow> datetime \<Rightarrow> error + datetime" where
  "get_period_start period now =
     (if period = ''daily''
      then Inr (now\<lparr>hour := 0, minute := 0, second := 0, microsecond := 0\<rparr>)
      else if period = ''weekly''
      then (let start_of_day = now\<lparr>hour := 0, minute := 0, second := 0, microsecond := 0\<rparr>
            in sub_days start_of_day (weekday start_of_day))
      else if period = ''monthly''
      then Inr (now\<lparr>day := 1, hour := 0, minute := 0, second := 0, microsecond := 0\<rparr>)
      else Inr now)"

subsection \<open>\<open>__init__\<close>\<close>

text \<open>The \<open>default_factory\<close> of the \<open>models\<close> dictionary.\<close>

definition default_factory :: model_stats where
  "default_factory =
     \<lparr>input_tokens = 0, output_tokens = 0, total_tokens = 0,
      daily_input_tokens = 0, daily_output_tokens = 0, daily_total_tokens = 0,
      weekly_input_tokens = 0, weekly_output_tokens = 0, weekly_total_tokens = 0,
      monthly_input_tokens = 0, monthly_output_tokens = 0, monthly_total_tokens = 0\<rparr>"

text \<open>
  \<open>defaultdict.__getitem__\<close>: a present key is returned; a missing key is first stored
  with the factory's value. The dictionary after the access is part of the result.
\<close>

definition models_getitem ::
  "(string \<rightharpoonup> model_stats) \<Rightarrow> string \<Rightarrow> model_stats \<times> (string \<rightharpoonup> model_stats)" where
  "models_getitem m k =
     (case m k of
        Some v \<Rightarrow> (v, m)
      | None \<Rightarrow> (default_factory, m(k \<mapsto> default_factory)))"

text \<open>The store as \<open>__init__\<close> builds it, \<open>now\<close> being the value of \<open>dt_util.utcnow()\<close>.\<close>

definition init :: "datetime \<Rightarrow> error + usage_data" where
  "init now =
     (case get_period_start ''daily'' now of
        Inl e \<Rightarrow> Inl e
      | Inr d \<Rightarrow>
     (case get_period_start ''weekly'' now of
        Inl e \<Rightarrow> Inl e
      | Inr w \<Rightarrow>
     (case get_period_start ''monthly'' now of
        Inl e \<Rightarrow> Inl e
      | Inr m \<Rightarrow>
          Inr \<lparr>total_requests = 0, daily_requests = 0, weekly_requests = 0,
               monthly_requests = 0,
               last_reset_daily = d, last_reset_weekly = w, last_reset_monthly = m,
               models = Map.empty\<rparr>)))"

subsection \<open>\<open>_reset_if_needed\<close>\<close>

text \<open>The bodies of the three iterations over \<open>models.values()\<close>.\<close>

definition zero_daily :: "model_stats \<Rightarrow> model_stats" where
  "zero_daily model =
     model\<lparr>daily_input_tokens := 0, daily_output_tokens := 0, daily_total_tokens := 0\<rparr>"

definition zero_weekly :: "model_stats \<Rightarrow> model_stats" where
  "zero_weekly model =
     model\<lparr>weekly_input_tokens := 0, weekly_output_tokens := 0, weekly_total_tokens := 0\<rparr>"

definition zero_monthly :: "model_stats \<Rightarrow> model_stats" where
  "zero_monthly model =
     model\<lparr>monthly_input_tokens := 0, monthly_output_tokens := 0, monthly_total_tokens := 0\<rparr>"

text \<open>\<open>for model in models.values(): ...\<close> updates every stored entry and no key.\<close>

definition for_values ::
  "(model_stats \<Rightarrow> model_stats) \<Rightarrow> (string \<rightharpoonup> model_stats) \<Rightarrow> (string \<rightharpoonup> model_stats)" where
  "for_values body m = (\<lambda>k. map_option body (m k))"

text \<open>
  The three checks of \<open>_reset_if_needed\<close>, in the order of the source. In each one the
  date arithmetic comes before the first assignment, so a check that raises has written
  nothing.
\<close>

definition check_daily_reset :: "datetime \<Rightarrow> usage_data \<Rightarrow> error + usage_data" where
  "check_daily_reset now ud =
     (case add_days (last_reset_daily ud) 1 of
        Inl e \<Rightarrow> Inl e
      | Inr due \<Rightarrow>
          if dt_ge now due
          then (case get_period_start ''daily'' now of
                  Inl e \<Rightarrow> Inl e
                | Inr start \<Rightarrow>
                    Inr (ud\<lparr>last_reset_daily := start, daily_requests := 0,
                            models := for_values zero_daily (models ud)\<rparr>))
          else Inr ud)"

definition check_weekly_reset :: "datetime \<Rightarrow> usage_data \<Rightarrow> error + usage_data" where
  "check_weekly_reset now ud =
     (case add_days (last_reset_weekly ud) 7 of
        Inl e \<Rightarrow> Inl e
      | Inr due \<Rightarrow>
          if dt_ge now due
          then (case get_period_start ''weekly'' now of
                  Inl e \<Rightarrow> Inl e
                | Inr start \<Rightarrow>
                    Inr (ud\<lparr>last_reset_weekly := start, weekly_requests := 0,
                            models := for_values zero_weekly (models ud)\<rparr>))
          else Inr ud)"

definition check_monthly_reset :: "datetime \<Rightarrow> usage_data \<Rightarrow> error + usage_data" where
  "check_monthly_reset now ud =
     (if month now \<noteq> month (last_reset_monthly ud)
      then (case get_period_start ''monthly'' now of
              Inl e \<Rightarrow> Inl e
            | Inr start \<Rightarrow>
                Inr (ud\<lparr>last_reset_monthly := start, monthly_requests := 0,
                        models := for_values zero_monthly (models ud)\<rparr>))
      else Inr ud)"

text \<open>
  The result is the exception raised, if any, and the store as the call leaves it.
  \<open>now\<close> is the value of \<open>dt_util.utcnow()\<close> read at the start of the call.
\<close>

definition reset_if_needed :: "datetime \<Rightarrow> usage_data \<Rightarrow> error option \<times> usage_data" where
  "reset_if_needed now ud =
     (case check_daily_reset now ud of
        Inl e \<Rightarrow> (Some e, ud)
      | Inr ud1 \<Rightarrow>
     (case check_weekly_reset now ud1 of
        Inl e \<Rightarrow> (Some e, ud1)
      | Inr ud2 \<Rightarrow>
     (case check_monthly_reset now ud2 of
        Inl e \<Rightarrow> (Some e, ud2)
      | Inr ud3 \<Rightarrow> (None, ud3))))"

subsection \<open>\<open>_async_update_data\<close>\<close>

text \<open>The snapshot returned is the store itself, after the rollover check.\<close>

definition async_update_data :: "datetime \<Rightarrow> usage_data \<Rightarrow> error option \<times> usage_data" where
  "async_update_data now ud = reset_if_needed now ud"

subsection \<open>\<open>update_usage_stats\<close>\<close>

text \<open>
  The reported result: \<open>usage_metadata\<close> is \<open>None\<close> when the object has no such attribute,
  and each count is \<open>None\<close> when the metadata has no such attribute. The counts are
  integers. The closing call \<open>self.async_schedule_refresh()\<close> is addressed to the host's
  coordinator class; it comes after every write to \<open>usage_data\<close> and is not part of the
  model.
\<close>

record usage_meta =
  prompt_token_count :: "int option"
  candidates_token_count :: "int option"
  total_token_count :: "int option"

record api_result =
  usage_metadata :: "usage_meta option"

definition getattr :: "int option \<Rightarrow> int \<Rightarrow> int" where
  "getattr attr dflt = (case attr of None \<Rightarrow> dflt | Some v \<Rightarrow> v)"

definition add_tokens :: "int \<Rightarrow> int \<Rightarrow> int \<Rightarrow> model_stats \<Rightarrow> model_stats" where
  "add_tokens inp outp tot model_stats =
     model_stats
       \<lparr>input_tokens := input_tokens model_stats + inp,
        output_tokens := output_tokens model_stats + outp,
        total_tokens := total_tokens model_stats + tot,
        daily_input_tokens := daily_input_tokens model_stats + inp,
        daily_output_tokens := daily_output_tokens model_stats + outp,
        daily_total_tokens := daily_total_tokens model_stats + tot,
        weekly_input_tokens := weekly_input_tokens model_stats + inp,
        weekly_output_tokens := weekly_output_tokens model_stats + outp,
        weekly_total_tokens := weekly_total_tokens model_stats + tot,
        monthly_input_tokens := monthly_input_tokens model_stats + inp,
        monthly_output_tokens := monthly_output_tokens model_stats + outp,
        monthly_total_tokens := monthly_total_tokens model_stats + tot\<rparr>"

definition update_usage_stats ::
  "datetime \<Rightarrow> string \<Rightarrow> api_result \<Rightarrow> usage_data \<Rightarrow> error option \<times> usage_data" where
  "update_usage_stats now model_name result ud =
     (case usage_metadata result of
        None \<Rightarrow> (None, ud)
      | Some usage \<Rightarrow>
          (case reset_if_needed now ud of
             (Some e, ud1) \<Rightarrow> (Some e, ud1)
           | (None, ud1) \<Rightarrow>
               let inp = getattr (prompt_token_count usage) 0;
                   outp = getattr (candidates_token_count usage) 0;
                   tot = getattr (total_token_count usage) 0;
                   ud2 = ud1\<lparr>total_requests := total_requests ud1 + 1,
                             daily_requests := daily_requests ud1 + 1,
                             weekly_requests := weekly_requests ud1 + 1,
                             monthly_requests := monthly_requests ud1 + 1\<rparr>
               in (case models_getitem (models ud2) model_name of
                     (model_stats, models2) \<Rightarrow>
                       (None, ud2\<lparr>models :=
                          models2(model_name \<mapsto> add_tokens inp outp tot model_stats)\<rparr>))))"

text \<open>A run of reports, each with its own clock reading; it stops at the first exception.\<close>

fun update_usage_stats_all ::
  "(datetime \<times> string \<times> api_result) list \<Rightarrow> usage_data \<Rightarrow> error option \<times> usage_data" where
  "update_usage_stats_all [] ud = (None, ud)"
| "update_usage_stats_all ((now, model_name, result) # calls) ud =
     (case update_usage_stats now model_name result ud of
        (Some e, ud1) \<Rightarrow> (Some e, ud1)
      | (None, ud1) \<Rightarrow> update_usage_stats_all calls ud1)"

section \<open>The sensors' reads (\<open>sensor.py\<close>)\<close>

text \<open>\<open>dict.get\<close> on one model's dictionary.\<close>

definition stats_get :: "model_stats \<Rightarrow> string \<Rightarrow> int option" where
  "stats_get ms key =
     (if key = ''input_tokens'' then Some (input_tokens ms)
      else if key = ''output_tokens'' then Some (output_tokens ms)
      else if key = ''total_tokens'' then Some (total_tokens ms)
      else if key = ''daily_input_tokens'' then Some (daily_input_tokens ms)
      else if key = ''daily_output_tokens'' then Some (daily_output_tokens ms)
      else if key = ''daily_total_tokens'' then Some (daily_total_tokens ms)
      else if key = ''weekly_input_tokens'' then Some (weekly_input_tokens ms)
      else if key = ''weekly_output_tokens'' then Some (weekly_output_tokens ms)
      else if key = ''weekly_total_tokens'' then Some (weekly_total_tokens ms)
      else if key = ''monthly_input_tokens'' then Some (monthly_input_tokens ms)
      else if key = ''monthly_output_tokens'' then Some (monthly_output_tokens ms)
      else if key = ''monthly_total_tokens'' then Some (monthly_total_tokens ms)
      else None)"

text \<open>
  \<open>coordinator.data\<close> is \<open>None\<close> before the first refresh and the store itself afterwards.
  A read returns the sensor's value and the store as the read leaves it: indexing
  \<open>data["models"]\<close> goes through \<open>defaultdict.__getitem__\<close>.
\<close>

definition total_calls_native_value :: "usage_data option \<Rightarrow> int option \<times> usage_data option" where
  "total_calls_native_value data =
     (case data of
        None \<Rightarrow> (None, None)
      | Some ud \<Rightarrow> (Some (total_requests ud), Some ud))"

definition model_token_native_value ::
  "usage_data option \<Rightarrow> string \<Rightarrow> string \<Rightarrow> int option \<times> usage_data option" where
  "model_token_native_value data model_name token_type_key =
     (case data of
        None \<Rightarrow> (None, None)
      | Some ud \<Rightarrow>
          (case models_getitem (models ud) model_name of
             (ms, models1) \<Rightarrow>
               (stats_get ms (token_type_key @ ''_tokens''), Some (ud\<lparr>models := models1\<rparr>))))"

definition periodic_model_token_native_value ::
  "usage_data option \<Rightarrow> string \<Rightarrow> string \<Rightarrow> string \<Rightarrow> int option \<times> usage_data option" where
  "periodic_model_token_native_value data model_name period_key token_type_key =
     (case data of
        None \<Rightarrow> (None, None)
      | Some ud \<Rightarrow>
          (let key = period_key @ ''_'' @ token_type_key @ ''_tokens''
           in case models_getitem (models ud) model_name of
                (ms, models1) \<Rightarrow> (stats_get ms key, Some (ud\<lparr>models := models1\<rparr>))))"

section \<open>Ranges in which the date arithmetic is defined\<close>

text \<open>
  \<open>last_reset_daily + 1 day\<close> and \<open>last_reset_weekly + 7 days\<close> are computed by every
  rollover check; Python raises \<open>OverflowError\<close> when they pass 9999-12-31.
\<close>

definition store_in_range :: "usage_data \<Rightarrow> bool" where
  "store_in_range ud \<longleftrightarrow>
     valid_datetime (last_reset_daily ud) \<and> valid_datetime (last_reset_weekly ud) \<and>
     valid_datetime (last_reset_monthly ud) \<and>
     toordinal (last_reset_daily ud) + 1 \<le> MAXORDINAL \<and>
     toordinal (last_reset_weekly ud) + 7 \<le> MAXORDINAL"

section \<open>The rollover conditions and their effect, as the specification words them\<close>

text \<open>
  \<open>now \<ge> last_reset_daily + 1 day\<close>, \<open>now \<ge> last_reset_weekly + 7 days\<close> and
  \<open>now.month \<noteq> last_reset_monthly.month\<close>.
\<close>

definition daily_due :: "datetime \<Rightarrow> usage_data \<Rightarrow> bool" where
  "daily_due now ud \<longleftrightarrow>
     (case add_days (last_reset_daily ud) 1 of Inl e \<Rightarrow> False | Inr due \<Rightarrow> dt_ge now due)"

definition weekly_due :: "datetime \<Rightarrow> usage_data \<Rightarrow> bool" where
  "weekly_due now ud \<longleftrightarrow>
     (case add_days (last_reset_weekly ud) 7 of Inl e \<Rightarrow> False | Inr due \<Rightarrow> dt_ge now due)"

definition monthly_due :: "datetime \<Rightarrow> usage_data \<Rightarrow> bool" where
  "monthly_due now ud \<longleftrightarrow> month now \<noteq> month (last_reset_monthly ud)"

text \<open>
  One model entry after a rollover in which the periods flagged \<open>D\<close>, \<open>W\<close>, \<open>M\<close> were
  reset: the three token fields of a reset period are zero, every other field is kept.
\<close>

definition rolled_stats :: "bool \<Rightarrow> bool \<Rightarrow> bool \<Rightarrow> model_stats \<Rightarrow> model_stats" where
  "rolled_stats D W M st =
     \<lparr>input_tokens = input_tokens st,
      output_tokens = output_tokens st,
      total_tokens = total_tokens st,
      daily_input_tokens = (if D then 0 else daily_input_tokens st),
      daily_output_tokens = (if D then 0 else daily_output_tokens st),
      daily_total_tokens = (if D then 0 else daily_total_tokens st),
      weekly_input_tokens = (if W then 0 else weekly_input_tokens st),
      weekly_output_tokens = (if W then 0 else weekly_output_tokens st),
      weekly_total_tokens = (if W then 0 else weekly_total_tokens st),
      monthly_input_tokens = (if M then 0 else monthly_input_tokens st),
      monthly_output_tokens = (if M then 0 else monthly_output_tokens st),
      monthly_total_tokens = (if M then 0 else monthly_total_tokens st)\<rparr>"

text \<open>
  The lifetime counters of a model (0 for a model without entry), the counts a result
  reports (a count that is absent is 0), and the two relations "the lifetime counters
  and the keys are the same" and "no lifetime counter is smaller, no key is lost".
\<close>

definition lifetime_input :: "usage_data \<Rightarrow> string \<Rightarrow> int" where
  "lifetime_input ud m = (case models ud m of None \<Rightarrow> 0 | Some st \<Rightarrow> input_tokens st)"

definition lifetime_output :: "usage_data \<Rightarrow> string \<Rightarrow> int" where
  "lifetime_output ud m = (case models ud m of None \<Rightarrow> 0 | Some st \<Rightarrow> output_tokens st)"

definition lifetime_total :: "usage_data \<Rightarrow> string \<Rightarrow> int" where
  "lifetime_total ud m = (case models ud m of None \<Rightarrow> 0 | Some st \<Rightarrow> total_tokens st)"

definition reported_input :: "api_result \<Rightarrow> int" where
  "reported_input r =
     (case usage_metadata r of None \<Rightarrow> 0 | Some u \<Rightarrow> getattr (prompt_token_count u) 0)"

definition reported_output :: "api_result \<Rightarrow> int" where
  "reported_output r =
     (case usage_metadata r of None \<Rightarrow> 0 | Some u \<Rightarrow> getattr (candidates_token_count u) 0)"

definition reported_total :: "api_result \<Rightarrow> int" where
  "reported_total r =
     (case usage_metadata r of None \<Rightarrow> 0 | Some u \<Rightarrow> getattr (total_token_count u) 0)"

definition lifetime_kept :: "usage_data \<Rightarrow> usage_data \<Rightarrow> bool" where
  "lifetime_kept a b \<longleftrightarrow>
     total_requests b = total_requests a \<and> dom (models b) = dom (models a) \<and>
     (\<forall>m. lifetime_input b m = lifetime_input a m \<and> lifetime_output b m = lifetime_output a m
          \<and> lifetime_total b m = lifetime_total a m)"

definition lifetime_grows :: "usage_data \<Rightarrow> usage_data \<Rightarrow> bool" where
  "lifetime_grows a b \<longleftrightarrow>
     total_requests a \<le> total_requests b \<and> dom (models a) \<subseteq> dom (models b) \<and>
     (\<forall>m. lifetime_input a m \<le> lifetime_input b m \<and> lifetime_output a m \<le> lifetime_output b m
          \<and> lifetime_total a m \<le> lifetime_total b m)"

section \<open>Example values\<close>

text \<open>\<open>datetime(y, m, d, h, mi, s, us)\<close>, and a store with one model entry.\<close>

definition mk_datetime :: "int \<Rightarrow> int \<Rightarrow> int \<Rightarrow> int \<Rightarrow> int \<Rightarrow> int \<Rightarrow> int \<Rightarrow> datetime" where
  "mk_datetime y m d h mi s us =
     \<lparr>year = y, month = m, day = d, hour = h, minute = mi, second = s, microsecond = us\<rparr>"

definition example_stats :: model_stats where
  "example_stats =
     \<lparr>input_tokens = 10, output_tokens = 5, total_tokens = 15,
      daily_input_tokens = 10, daily_output_tokens = 5, daily_total_tokens = 15,
      weekly_input_tokens = 10, weekly_output_tokens = 5, weekly_total_tokens = 15,
      monthly_input_tokens = 10, monthly_output_tokens = 5, monthly_total_tokens = 15\<rparr>"

definition example_store :: usage_data where
  "example_store =
     \<lparr>total_requests = 1, daily_requests = 1, weekly_requests = 1, monthly_requests = 1,
      last_reset_daily = mk_datetime 2024 1 15 0 0 0 0,
      last_reset_weekly = mk_datetime 2024 1 15 0 0 0 0,
      last_reset_monthly = mk_datetime 2024 1 1 0 0 0 0,
      models = [''model-x'' \<mapsto> example_stats]\<rparr>"

text \<open>
  A result that reports all three counts, and the stores of Scenarios A and B of the
  specification: the store created at 2024-01-15T10:00:00Z, the store after the report
  (10, 5, 15) for \<open>model-x\<close> at 10:05, and the store after the report (1, 1, 2) one day
  later at 2024-01-16T10:00:00Z.
\<close>

definition mk_result :: "int \<Rightarrow> int \<Rightarrow> int \<Rightarrow> api_result" where
  "mk_result inp outp tot =
     \<lparr>usage_metadata = Some \<lparr>prompt_token_count = Some inp,
                             candidates_token_count = Some outp,
                             total_token_count = Some tot\<rparr>\<rparr>"

definition scenario_store0 :: usage_data where
  "scenario_store0 =
     \<lparr>total_requests = 0, daily_requests = 0, weekly_requests = 0, monthly_requests = 0,
      last_reset_daily = mk_datetime 2024 1 15 0 0 0 0,
      last_reset_weekly = mk_datetime 2024 1 15 0 0 0 0,
      last_reset_monthly = mk_datetime 2024 1 1 0 0 0 0,
      models = Map.empty\<rparr>"

definition scenario_store1 :: usage_data where
  "scenario_store1 =
     \<lparr>total_requests = 1, daily_requests = 1, weekly_requests = 1, monthly_requests = 1,
      last_reset_daily = mk_datetime 2024 1 15 0 0 0 0,
      last_reset_weekly = mk_datetime 2024 1 15 0 0 0 0,
      last_reset_monthly = mk_datetime 2024 1 1 0 0 0 0,
      models = [''model-x'' \<mapsto> example_stats]\<rparr>"

definition scenario_store2 :: usage_data where
  "scenario_store2 =
     \<lparr>total_requests = 2, daily_requests = 1, weekly_requests = 2, monthly_requests = 2,
      last_reset_daily = mk_datetime 2024 1 16 0 0 0 0,
      last_reset_weekly = mk_datetime 2024 1 15 0 0 0 0,
      last_reset_monthly = mk_datetime 2024 1 1 0 0 0 0,
      models = [''model-x'' \<mapsto>
        \<lparr>input_tokens = 11, output_tokens = 6, total_tokens = 17,
         daily_input_tokens = 1, daily_output_tokens = 1, daily_total_tokens = 2,
         weekly_input_tokens = 11, weekly_output_tokens = 6, weekly_total_tokens = 17,
         monthly_input_tokens = 11, monthly_output_tokens = 6, monthly_total_tokens = 17\<rparr>]\<rparr>"

text \<open>A result whose metadata has none of the three counts, and a result without metadata.\<close>

definition result_without_counts :: api_result where
  "result_without_counts =
     \<lparr>usage_metadata = Some \<lparr>prompt_token_count = None, candidates_token_count = None,
                             total_token_count = None\<rparr>\<rparr>"

definition result_without_metadata :: api_result where
  "result_without_metadata = \<lparr>usage_metadata = None\<rparr>"

text \<open>Stores in which only the weekly, and only the monthly, reset is due.\<close>

definition weekly_only_store :: usage_data where
  "weekly_only_store =
     \<lparr>total_requests = 7, daily_requests = 1, weekly_requests = 5, monthly_requests = 6,
      last_reset_daily = mk_datetime 2024 1 22 0 0 0 0,
      last_reset_weekly = mk_datetime 2024 1 15 0 0 0 0,
      last_reset_monthly = mk_datetime 2024 1 1 0 0 0 0,
      models = [''model-x'' \<mapsto> example_stats]\<rparr>"

definition monthly_only_store :: usage_data where
  "monthly_only_store =
     \<lparr>total_requests = 7, daily_requests = 1, weekly_requests = 5, monthly_requests = 6,
      last_reset_daily = mk_datetime 2024 2 1 0 0 0 0,
      last_reset_weekly = mk_datetime 2024 1 29 0 0 0 0,
      last_reset_monthly = mk_datetime 2024 1 1 0 0 0 0,
      models = [''model-x'' \<mapsto> example_stats]\<rparr>"

text \<open>A store last reset in January 2023.\<close>

definition year_old_store :: usage_data where
  "year_old_store =
     \<lparr>total_requests = 7, daily_requests = 1, weekly_requests = 5, monthly_requests = 6,
      last_reset_daily = mk_datetime 2023 1 5 0 0 0 0,
      last_reset_weekly = mk_datetime 2023 1 2 0 0 0 0,
      last_reset_monthly = mk_datetime 2023 1 1 0 0 0 0,
      models = [''model-x'' \<mapsto> example_stats]\<rparr>"

text \<open>The two reports of Scenarios A and B as a run.\<close>

definition scenario_calls :: "(datetime \<times> string \<times> api_result) list" where
  "scenario_calls =
     [(mk_datetime 2024 1 15 10 5 0 0, ''model-x'', mk_result 10 5 15),
      (mk_datetime 2024 1 16 10 0 0 0, ''model-x'', mk_result 1 1 2)]"

section \<open>Facts about the calendar\<close>

subsection \<open>From ordinals to dates and back\<close>

lemma mod_full:
  fixes x k :: int
  assumes "1 \<le> x" "x \<le> k"
  shows "x mod k = 0 \<longleftrightarrow> x = k"
proof (cases "x = k")
  case True
  then show ?thesis by simp
next
  case False
  with assms have "x mod k = x" by (simp add: mod_pos_pos_trivial)
  with assms False show ?thesis by simp
qed

lemma is_leap_decomp:
  assumes "0 \<le> n100" "n100 \<le> 3" "0 \<le> n4" "n4 \<le> 24" "0 \<le> n1" "n1 \<le> (3::int)"
  shows "is_leap (n400 * 400 + 1 + n100 * 100 + n4 * 4 + n1)
         \<longleftrightarrow> n1 = 3 \<and> (n4 \<noteq> 24 \<or> n100 = 3)"
proof -
  let ?y = "n400 * 400 + 1 + n100 * 100 + n4 * 4 + n1"
  have m4: "?y mod 4 = (n1 + 1) mod 4"
  proof -
    have "?y = (n1 + 1) + 4 * (n400 * 100 + n100 * 25 + n4)" by simp
    then show ?thesis by (simp only: mod_mult_self2)
  qed
  have m100: "?y mod 100 = (n4 * 4 + n1 + 1) mod 100"
  proof -
    have "?y = (n4 * 4 + n1 + 1) + 100 * (n400 * 4 + n100)" by simp
    then show ?thesis by (simp only: mod_mult_self2)
  qed
  have m400: "?y mod 400 = (n100 * 100 + n4 * 4 + n1 + 1) mod 400"
  proof -
    have "?y = (n100 * 100 + n4 * 4 + n1 + 1) + 400 * n400" by simp
    then show ?thesis by (simp only: mod_mult_self2)
  qed
  have a4: "(n1 + 1) mod 4 = 0 \<longleftrightarrow> n1 = 3" using assms(5,6) by presburger
  have r100: "1 \<le> n4 * 4 + n1 + 1" "n4 * 4 + n1 + 1 \<le> 100" using assms by auto
  have a100: "(n4 * 4 + n1 + 1) mod 100 = 0 \<longleftrightarrow> n4 * 4 + n1 + 1 = 100"
    using r100 by (rule mod_full)
  have r400: "1 \<le> n100 * 100 + n4 * 4 + n1 + 1" "n100 * 100 + n4 * 4 + n1 + 1 \<le> 400"
    using assms by auto
  have a400: "(n100 * 100 + n4 * 4 + n1 + 1) mod 400 = 0 \<longleftrightarrow> n100 * 100 + n4 * 4 + n1 + 1 = 400"
    using r400 by (rule mod_full)
  show ?thesis unfolding is_leap_def m4 m100 m400 a4 a100 a400 using assms by auto
qed

lemma month_cases:
  assumes "1 \<le> m" "m \<le> (12::int)"
  obtains "m = 1" | "m = 2" | "m = 3" | "m = 4" | "m = 5" | "m = 6"
        | "m = 7" | "m = 8" | "m = 9" | "m = 10" | "m = 11" | "m = 12"
proof -
  have "m = 1 \<or> m = 2 \<or> m = 3 \<or> m = 4 \<or> m = 5 \<or> m = 6
        \<or> m = 7 \<or> m = 8 \<or> m = 9 \<or> m = 10 \<or> m = 11 \<or> m = 12"
    using assms by presburger
  then show thesis using that by blast
qed

lemma yday2md_ok:
  assumes "0 \<le> n" "n \<le> 364" "yday2md lp n = (m, d)"
  shows "1 \<le> m \<and> m \<le> 12 \<and> 1 \<le> d
         \<and> d \<le> (if m = 2 \<and> lp then 29 else DAYS_IN_MONTH ! nat m)
         \<and> DAYS_BEFORE_MONTH ! nat m + (if m > 2 \<and> lp then 1 else 0) + d = n + 1"
proof -
  define e where "e = (n + 50) div 32"
  have e: "1 \<le> e" "e \<le> 12" "32 * e \<le> n + 50" "n + 50 < 32 * e + 32"
    using assms(1,2) unfolding e_def by presburger+
  note defs = yday2md_def Let_def DAYS_BEFORE_MONTH_def DAYS_IN_MONTH_def
  from e(1,2) show ?thesis
    using e assms unfolding yday2md_def Let_def e_def[symmetric]
    by (cases e rule: month_cases)
       (auto simp: DAYS_BEFORE_MONTH_def DAYS_IN_MONTH_def split: if_splits)
qed

lemma dby_decomp:
  assumes "0 \<le> n100" "n100 \<le> 3" "0 \<le> n4" "n4 \<le> 24" "0 \<le> n1" "n1 \<le> (3::int)"
  shows "days_before_year (n400 * 400 + 1 + n100 * 100 + n4 * 4 + n1)
         = 146097 * n400 + 36524 * n100 + 1461 * n4 + 365 * n1"
proof -
  let ?p = "n400 * 400 + n100 * 100 + n4 * 4 + n1"
  have d4: "?p div 4 = n400 * 100 + n100 * 25 + n4"
    using assms by (intro int_div_pos_eq[where r = n1]) auto 
  have d100: "?p div 100 = n400 * 4 + n100"
    using assms by (intro int_div_pos_eq[where r = "n4 * 4 + n1"]) auto
  have d400: "?p div 400 = n400"
    using assms by (intro int_div_pos_eq[where r = "n100 * 100 + n4 * 4 + n1"]) auto
  show ?thesis
    unfolding days_before_year_def Let_def
    using d4 d100 d400 by (simp add: algebra_simps)
qed

lemma ord2ymd_ok:
  assumes "1 \<le> n0" "ord2ymd n0 = (y, m, d)"
  shows "1 \<le> y \<and> 1 \<le> m \<and> m \<le> 12 \<and> 1 \<le> d \<and> d \<le> days_in_month y m
         \<and> ymd2ord y m d = n0"
proof -
  define n where "n = n0 - 1"
  define n400 where "n400 = n div 146097"
  define r where "r = n mod 146097"
  define n100 where "n100 = r div 36524"
  define r1 where "r1 = r mod 36524"
  define n4 where "n4 = r1 div 1461"
  define r2 where "r2 = r1 mod 1461"
  define n1 where "n1 = r2 div 365"
  define r3 where "r3 = r2 mod 365"
  define Y where "Y = n400 * 400 + 1 + n100 * 100 + n4 * 4 + n1"
  define lp where "lp \<longleftrightarrow> n1 = 3 \<and> (n4 \<noteq> 24 \<or> n100 = 3)"
  have n: "0 \<le> n" using assms(1) by (simp add: n_def)
  have q400: "0 \<le> n400" using n by (simp add: n400_def pos_imp_zdiv_nonneg_iff)
  have e0: "n = 146097 * n400 + r" "0 \<le> r" "r < 146097"
    by (simp_all add: n400_def r_def)
  have e1: "r = 36524 * n100 + r1" "0 \<le> r1" "r1 < 36524"
    by (simp_all add: n100_def r1_def)
  have e2: "r1 = 1461 * n4 + r2" "0 \<le> r2" "r2 < 1461"
    by (simp_all add: n4_def r2_def)
  have e3: "r2 = 365 * n1 + r3" "0 \<le> r3" "r3 < 365"
    by (simp_all add: n1_def r3_def)
  have b100: "0 \<le> n100" "n100 \<le> 4" using e0 e1 by auto
  have b4: "0 \<le> n4" "n4 \<le> 24" using e1 e2 by auto
  have b1: "0 \<le> n1" "n1 \<le> 4" using e2 e3 by auto
  have unf: "ord2ymd n0 = (if n1 = 4 \<or> n100 = 4 then (Y - 1, 12, 31)
               else case yday2md lp r3 of (m, d) \<Rightarrow> (Y, m, d))"
    by (simp add: ord2ymd_def Let_def DI400Y_def DI100Y_def DI4Y_def n_def n400_def r_def
        n100_def r1_def n4_def r2_def n1_def r3_def Y_def lp_def)
  show ?thesis
  proof (cases "n100 = 4")
    case True
    then have "r1 = 0" "n4 = 0" "r2 = 0" "n1 = 0" "r3 = 0" using e0 e1 e2 e3 b4 b1 by auto
    moreover have "y = Y - 1" "m = 12" "d = 31" using True assms(2) unf by auto
    moreover have "Y - 1 = n400 * 400 + 1 + 3 * 100 + 24 * 4 + 3"
      using True \<open>n4 = 0\<close> \<open>n1 = 0\<close> by (simp add: Y_def)
    moreover have "days_before_year (n400 * 400 + 1 + 3 * 100 + 24 * 4 + 3)
        = 146097 * n400 + 36524 * 3 + 1461 * 24 + 365 * 3"
      by (rule dby_decomp) auto
    moreover have "is_leap (n400 * 400 + 1 + 3 * 100 + 24 * 4 + 3)"
      by (subst is_leap_decomp) auto
    ultimately show ?thesis using q400 e0 e1 True
      by (simp add: ymd2ord_def days_in_month_def days_before_month_def
          DAYS_BEFORE_MONTH_def DAYS_IN_MONTH_def n_def)
  next
    case n100: False
    then have c100: "n100 \<le> 3" using b100 by simp
    show ?thesis
    proof (cases "n1 = 4")
      case True
      then have "r3 = 0" "r2 = 1460" using e3 e2 by auto
      then have c4: "n4 \<le> 23" using e1 e2 b4 by auto
      have "y = Y - 1" "m = 12" "d = 31" using True assms(2) unf by auto
      moreover have "Y - 1 = n400 * 400 + 1 + n100 * 100 + n4 * 4 + 3"
        using True by (simp add: Y_def)
      moreover have "days_before_year (n400 * 400 + 1 + n100 * 100 + n4 * 4 + 3)
          = 146097 * n400 + 36524 * n100 + 1461 * n4 + 365 * 3"
        using b100 c100 b4 by (intro dby_decomp) auto
      moreover have "is_leap (n400 * 400 + 1 + n100 * 100 + n4 * 4 + 3)"
        using b100 c100 b4 c4 by (subst is_leap_decomp) auto
      ultimately show ?thesis using q400 e0 e1 e2 \<open>r2 = 1460\<close> b100 b4
        by (simp add: ymd2ord_def days_in_month_def days_before_month_def
            DAYS_BEFORE_MONTH_def DAYS_IN_MONTH_def n_def)
    next
      case False
      then have c1: "n1 \<le> 3" using b1 by simp
      obtain m' d' where md: "yday2md lp r3 = (m', d')" by (cases "yday2md lp r3")
      have ymd: "y = Y" "m = m'" "d = d'" using False n100 assms(2) unf md by auto
      have ok: "1 \<le> m' \<and> m' \<le> 12 \<and> 1 \<le> d'
         \<and> d' \<le> (if m' = 2 \<and> lp then 29 else DAYS_IN_MONTH ! nat m')
         \<and> DAYS_BEFORE_MONTH ! nat m' + (if m' > 2 \<and> lp then 1 else 0) + d' = r3 + 1"
        using e3 md by (intro yday2md_ok) auto
      have dby: "days_before_year Y = 146097 * n400 + 36524 * n100 + 1461 * n4 + 365 * n1"
        unfolding Y_def using b100 c100 b4 b1 c1 by (intro dby_decomp) auto
      have lp: "is_leap Y \<longleftrightarrow> lp"
        unfolding Y_def lp_def using b100 c100 b4 b1 c1 by (intro is_leap_decomp) auto
      have "1 \<le> Y" using q400 b100 b4 b1 by (simp add: Y_def)
      then show ?thesis using ok dby lp ymd e0 e1 e2 e3
        by (simp add: ymd2ord_def days_in_month_def days_before_month_def n_def)
    qed
  qed
qed

subsection \<open>Ordinals grow with the date\<close>

lemma div_step:
  fixes p k :: int
  assumes "0 < k"
  shows "(p + 1) div k = p div k + (if (p + 1) mod k = 0 then 1 else 0)"
proof (cases "(p + 1) mod k = 0")
  case True
  then obtain q where q: "p + 1 = k * q" by (metis mod_eq_0_iff_dvd dvd_def)
  then have "p = k * (q - 1) + (k - 1)" by (simp add: algebra_simps)
  then have "p div k = q - 1" using assms by (intro int_div_pos_eq[where r = "k - 1"]) auto
  moreover have "(p + 1) div k = q" using q assms by simp
  ultimately show ?thesis using True by simp
next
  case False
  define r where "r = p mod k"
  have r: "0 \<le> r" "r < k" using assms by (simp_all add: r_def)
  have p: "p = k * (p div k) + r" by (simp add: r_def)
  have "r + 1 \<noteq> k"
  proof
    assume "r + 1 = k"
    then have "p + 1 = k * (p div k + 1)" using p by (simp add: algebra_simps)
    then have "(p + 1) mod k = 0" by (metis mod_mult_self1_is_0)
    with False show False by simp
  qed
  then have "r + 1 < k" using r by simp
  moreover have "p + 1 = k * (p div k) + (r + 1)" using p by simp
  ultimately have "(p + 1) div k = p div k" using r by (intro int_div_pos_eq[where r = "r + 1"]) auto
  then show ?thesis using False by simp
qed

lemma dby_step:
  "days_before_year (y + 1) = days_before_year y + (if is_leap y then 366 else 365)"
proof -
  define p where "p = y - 1"
  define a b c where "a = p div 4" and "b = p div 100" and "c = p div 400"
  define A B C where "A \<longleftrightarrow> (p + 1) mod 4 = 0" and "B \<longleftrightarrow> (p + 1) mod 100 = 0"
    and "C \<longleftrightarrow> (p + 1) mod 400 = 0"
  have s4: "(p + 1) div 4 = a + (if A then 1 else 0)"
    unfolding a_def A_def by (rule div_step) simp
  have s100: "(p + 1) div 100 = b + (if B then 1 else 0)"
    unfolding b_def B_def by (rule div_step) simp
  have s400: "(p + 1) div 400 = c + (if C then 1 else 0)"
    unfolding c_def C_def by (rule div_step) simp
  have "(p + 1) mod 400 mod 100 = (p + 1) mod 100" by (rule mod_mod_cancel) simp
  then have CB: "C \<Longrightarrow> B" by (simp add: B_def C_def)
  have "(p + 1) mod 100 mod 4 = (p + 1) mod 4" by (rule mod_mod_cancel) simp
  then have BA: "B \<Longrightarrow> A" by (simp add: A_def B_def)
  have y: "y = p + 1" by (simp add: p_def)
  have leap: "is_leap y \<longleftrightarrow> A \<and> (\<not> B \<or> C)"
    by (simp add: is_leap_def y A_def B_def C_def)
  have lhs: "days_before_year (y + 1)
      = (p + 1) * 365 + (p + 1) div 4 - (p + 1) div 100 + (p + 1) div 400"
  proof -
    have "y + 1 - 1 = p + 1" by (simp add: y)
    then show ?thesis unfolding days_before_year_def Let_def by (simp only:)
  qed
  have rhs: "days_before_year y = p * 365 + a - b + c"
    unfolding days_before_year_def Let_def p_def[symmetric] a_def b_def c_def ..
  show ?thesis
    unfolding lhs rhs s4 s100 s400 leap using CB BA
    by (cases A; cases B; cases C; simp)
qed

lemma dby_mono_nat:
  "days_before_year y + 365 * int k \<le> days_before_year (y + int k)"
proof (induction k)
  case 0
  then show ?case by simp
next
  case (Suc k)
  have "y + int (Suc k) = (y + int k) + 1" by simp
  then have "days_before_year (y + int (Suc k)) = days_before_year ((y + int k) + 1)"
    by (simp only:)
  also have "\<dots> \<ge> days_before_year (y + int k) + 365"
    by (simp add: dby_step)
  finally show ?case using Suc by simp
qed

lemma dby_mono:
  assumes "y \<le> y'"
  shows "days_before_year y + 365 * (y' - y) \<le> days_before_year y'"
  using dby_mono_nat[of y "nat (y' - y)"] assms by simp

lemma dby_1: "days_before_year 1 = 0"
  by (simp add: days_before_year_def)

lemma dby_10000: "days_before_year 10000 = 3652059"
  by (simp add: days_before_year_def)

lemma yday_bounds:
  assumes "1 \<le> m" "m \<le> 12" "1 \<le> d" "d \<le> days_in_month y m"
  shows "1 \<le> days_before_month y m + d
         \<and> days_before_month y m + d \<le> (if is_leap y then 366 else 365)"
  using assms unfolding days_in_month_def days_before_month_def
  by (cases m rule: month_cases)
     (simp_all add: DAYS_BEFORE_MONTH_def DAYS_IN_MONTH_def split: if_splits)

lemma dbm_mono:
  assumes "1 \<le> m" "m \<le> 12" "1 \<le> m'" "m' \<le> 12" "m < m'"
  shows "days_before_month y m + days_in_month y m \<le> days_before_month y m'"
proof -
  from assms(1,2) show ?thesis
  proof (cases m rule: month_cases)
  qed (use assms(3,4,5) in \<open>cases m' rule: month_cases,
        simp_all add: days_in_month_def days_before_month_def DAYS_BEFORE_MONTH_def DAYS_IN_MONTH_def\<close>)+
qed

lemma ymd2ord_less:
  assumes "valid_date y m d" "valid_date y' m' d'"
    and "y < y' \<or> y = y' \<and> (m < m' \<or> m = m' \<and> d < d')"
  shows "ymd2ord y m d < ymd2ord y' m' d'"
proof -
  from assms(3) consider "y < y'" | "y = y'" "m < m'" | "y = y'" "m = m'" "d < d'" by blast
  then show ?thesis
  proof cases
    case 1
    have "ymd2ord y m d \<le> days_before_year (y + 1)"
      using yday_bounds[of m d y] assms(1) by (simp add: ymd2ord_def dby_step valid_date_def)
    also have "\<dots> \<le> days_before_year y'"
      using dby_mono[of "y + 1" y'] 1 by simp
    also have "\<dots> < ymd2ord y' m' d'"
      using yday_bounds[of m' d' y'] assms(2) by (simp add: ymd2ord_def valid_date_def)
    finally show ?thesis .
  next
    case 2
    then show ?thesis
      using dbm_mono[of m m' y] assms(1,2) by (simp add: ymd2ord_def valid_date_def)
  next
    case 3
    then show ?thesis by (simp add: ymd2ord_def)
  qed
qed

subsection \<open>Instants, comparison and day arithmetic\<close>

lemma instant_tod: "instant d = toordinal d * DAY + tod d"
  by (simp add: instant_def tod_def DAY_def algebra_simps)

lemma valid_datetime_date:
  "valid_datetime d \<Longrightarrow> valid_date (year d) (month d) (day d)"
  by (simp add: valid_datetime_def valid_date_def)

lemma tod_bounds:
  assumes "valid_datetime d"
  shows "0 \<le> tod d" "tod d < DAY"
  using assms by (simp_all add: valid_datetime_def tod_def DAY_def)

lemma toordinal_bounds:
  assumes "valid_datetime d"
  shows "1 \<le> toordinal d" "toordinal d \<le> MAXORDINAL"
proof -
  have y: "1 \<le> year d" "year d \<le> 9999"
    using assms by (simp_all add: valid_datetime_def MINYEAR_def MAXYEAR_def)
  have yd: "1 \<le> days_before_month (year d) (month d) + day d"
    "days_before_month (year d) (month d) + day d \<le> (if is_leap (year d) then 366 else 365)"
    using yday_bounds[of "month d" "day d" "year d"] assms by (simp_all add: valid_datetime_def)
  have "0 \<le> days_before_year (year d)"
    using dby_mono[of 1 "year d"] y by (simp add: dby_1)
  then show "1 \<le> toordinal d" using yd by (simp add: toordinal_def ymd2ord_def)
  have "toordinal d \<le> days_before_year (year d + 1)"
    using yd by (simp add: toordinal_def ymd2ord_def dby_step)
  also have "\<dots> \<le> days_before_year 10000"
    using dby_mono[of "year d + 1" 10000] y by simp
  finally show "toordinal d \<le> MAXORDINAL" by (simp add: dby_10000 MAXORDINAL_def)
qed

lemma tod_lex:
  assumes "valid_datetime a" "valid_datetime b"
  shows "tuple_cmp [hour a, minute a, second a, microsecond a]
                   [hour b, minute b, second b, microsecond b] \<ge> 0 \<longleftrightarrow> tod b \<le> tod a"
  using assms unfolding valid_datetime_def tod_def
  by simp

lemma tuple_cmp_date_lt:
  assumes "y < y' \<or> y = y' \<and> (m < m' \<or> m = m' \<and> d < d')"
  shows "tuple_cmp (y # m # d # xs) (y' # m' # d' # ys) = -1"
  using assms by auto

lemma tuple_cmp_date_gt:
  assumes "y' < y \<or> y' = y \<and> (m' < m \<or> m' = m \<and> d' < d)"
  shows "tuple_cmp (y # m # d # xs) (y' # m' # d' # ys) = 1"
  using assms by auto

lemma dt_ge_instant:
  assumes "valid_datetime a" "valid_datetime b"
  shows "dt_ge a b \<longleftrightarrow> instant b \<le> instant a"
proof -
  have va: "valid_date (year a) (month a) (day a)" and vb: "valid_date (year b) (month b) (day b)"
    using assms by (simp_all add: valid_datetime_date)
  note ta = tod_bounds[OF assms(1)] and tb = tod_bounds[OF assms(2)]
  consider
    (lt) "year a < year b \<or> year a = year b \<and> (month a < month b \<or> month a = month b \<and> day a < day b)"
  | (gt) "year b < year a \<or> year b = year a \<and> (month b < month a \<or> month b = month a \<and> day b < day a)"
  | (eq) "year a = year b" "month a = month b" "day a = day b"
    by linarith
  then show ?thesis
  proof cases
    case lt
    then have "toordinal a < toordinal b"
      unfolding toordinal_def by (intro ymd2ord_less va vb)
    then have "toordinal a * DAY + DAY \<le> toordinal b * DAY" by (simp add: DAY_def)
    then have "instant a < instant b" using ta tb by (simp add: instant_tod)
    moreover have "\<not> dt_ge a b"
      unfolding dt_ge_def dt_cmp_def dt_tuple_def by (simp add: tuple_cmp_date_lt[OF lt] del: tuple_cmp.simps)
    ultimately show ?thesis by simp
  next
    case gt
    then have "toordinal b < toordinal a"
      unfolding toordinal_def by (intro ymd2ord_less va vb)
    then have "toordinal b * DAY + DAY \<le> toordinal a * DAY" by (simp add: DAY_def)
    then have "instant b < instant a" using ta tb by (simp add: instant_tod)
    moreover have "dt_ge a b"
      unfolding dt_ge_def dt_cmp_def dt_tuple_def by (simp add: tuple_cmp_date_gt[OF gt] del: tuple_cmp.simps)
    ultimately show ?thesis by simp
  next
    case eq
    then have "toordinal a = toordinal b" by (simp add: toordinal_def)
    then have "instant b \<le> instant a \<longleftrightarrow> tod b \<le> tod a" by (simp add: instant_tod)
    moreover have "dt_ge a b \<longleftrightarrow> tuple_cmp [hour a, minute a, second a, microsecond a]
                   [hour b, minute b, second b, microsecond b] \<ge> 0"
      using eq by (simp add: dt_ge_def dt_cmp_def dt_tuple_def)
    ultimately show ?thesis using tod_lex[OF assms] by simp
  qed
qed

lemma add_days_ok:
  assumes "valid_datetime d" "0 < toordinal d + k" "toordinal d + k \<le> MAXORDINAL"
  shows "\<exists>d'. add_days d k = Inr d' \<and> valid_datetime d' \<and> toordinal d' = toordinal d + k
          \<and> hour d' = hour d \<and> minute d' = minute d \<and> second d' = second d
          \<and> microsecond d' = microsecond d \<and> instant d' = instant d + k * DAY"
proof -
  define n where "n = toordinal d + k"
  obtain y m dd where o: "ord2ymd n = (y, m, dd)" by (cases "ord2ymd n") auto
  have n: "1 \<le> n" "n \<le> 3652059" using assms(2,3) by (simp_all add: n_def MAXORDINAL_def)
  from ord2ymd_ok[OF n(1) o]
  have ok: "1 \<le> y" "1 \<le> m" "m \<le> 12" "1 \<le> dd" "dd \<le> days_in_month y m" "ymd2ord y m dd = n"
    by simp_all
  have "y \<le> 9999"
  proof (rule ccontr)
    assume "\<not> y \<le> 9999"
    then have "10000 \<le> y" by simp
    then have "days_before_year 10000 \<le> days_before_year y"
      using dby_mono[of 10000 y] by simp
    moreover have "days_before_year y < ymd2ord y m dd"
      using yday_bounds[of m dd y] ok by (simp add: ymd2ord_def)
    ultimately show False using ok(6) n(2) by (simp add: dby_10000)
  qed
  define d' where "d' = d\<lparr>year := y, month := m, day := dd\<rparr>"
  have "add_days d k = Inr d'"
    using assms(2,3) o by (simp add: add_days_def Let_def n_def[symmetric] d'_def)
  moreover have "valid_datetime d'"
    using assms(1) ok \<open>y \<le> 9999\<close>
    by (simp add: valid_datetime_def d'_def MINYEAR_def MAXYEAR_def)
  moreover have t: "toordinal d' = toordinal d + k"
    using ok(6) by (simp add: toordinal_def d'_def n_def)
  moreover have "tod d' = tod d" by (simp add: tod_def d'_def)
  then have "instant d' = instant d + k * DAY"
    using t by (simp add: instant_tod algebra_simps)
  ultimately show ?thesis by (simp add: d'_def)
qed

lemma day_le_31:
  assumes "1 \<le> m" "m \<le> 12" "d \<le> days_in_month y m"
  shows "d \<le> 31"
  using assms unfolding days_in_month_def
  by (cases m rule: month_cases) (simp_all add: DAYS_IN_MONTH_def split: if_splits)

lemma month_changes_after_40_days:
  assumes "valid_datetime a" "valid_datetime b" "toordinal b = toordinal a + 40"
  shows "month b \<noteq> month a"
proof
  assume m: "month b = month a"
  have va: "valid_date (year a) (month a) (day a)" and vb: "valid_date (year b) (month b) (day b)"
    using assms by (simp_all add: valid_datetime_date)
  have da: "1 \<le> day a" "day a \<le> 31" "1 \<le> day b" "day b \<le> 31"
    using va vb day_le_31 by (auto simp: valid_date_def)
  consider "year b < year a" | "year a = year b" | "year a < year b" by linarith
  then show False
  proof cases
    case 1
    then have "toordinal b < toordinal a"
      unfolding toordinal_def by (intro ymd2ord_less va vb) simp
    then show False using assms(3) by simp
  next
    case 2
    then have "toordinal b - toordinal a = day b - day a"
      using m by (simp add: toordinal_def ymd2ord_def)
    then show False using assms(3) da by simp
  next
    case 3
    have "days_before_year (year a) + 365 \<le> days_before_year (year b)"
      using dby_mono[of "year a" "year b"] 3 by simp
    moreover have "days_before_month (year a) (month a) \<le> days_before_month (year b) (month a) + 1"
      by (simp add: days_before_month_def)
    ultimately have "toordinal a + 365 \<le> toordinal b + 1 + 30"
      using m da by (simp add: toordinal_def ymd2ord_def)
    then show False using assms(3) by simp
  qed
qed

subsection \<open>The period starts\<close>

lemma daily_start_ok:
  assumes "valid_datetime now"
  shows "\<exists>s. get_period_start ''daily'' now = Inr s
          \<and> s = now\<lparr>hour := 0, minute := 0, second := 0, microsecond := 0\<rparr>
          \<and> valid_datetime s \<and> toordinal s = toordinal now
          \<and> instant s \<le> instant now \<and> instant now < instant s + DAY"
proof -
  define s where "s = now\<lparr>hour := 0, minute := 0, second := 0, microsecond := 0\<rparr>"
  have "get_period_start ''daily'' now = Inr s" by (simp add: get_period_start_def s_def)
  moreover have "valid_datetime s" using assms by (simp add: valid_datetime_def s_def)
  moreover have o: "toordinal s = toordinal now" by (simp add: toordinal_def s_def)
  moreover have "tod s = 0" by (simp add: tod_def s_def)
  then have "instant s \<le> instant now \<and> instant now < instant s + DAY"
    using o tod_bounds[OF assms] by (simp add: instant_tod)
  ultimately show ?thesis by (simp add: s_def)
qed

lemma weekday_range: "0 \<le> weekday d" "weekday d \<le> 6"
  by (simp_all add: weekday_def)

lemma weekly_start_ok:
  assumes "valid_datetime now"
  shows "\<exists>s. get_period_start ''weekly'' now = Inr s
          \<and> valid_datetime s \<and> toordinal s = toordinal now - weekday now \<and> weekday s = 0
          \<and> hour s = 0 \<and> minute s = 0 \<and> second s = 0 \<and> microsecond s = 0
          \<and> instant s \<le> instant now \<and> instant now < instant s + 7 * DAY"
proof -
  define m where "m = now\<lparr>hour := 0, minute := 0, second := 0, microsecond := 0\<rparr>"
  have vm: "valid_datetime m" using assms by (simp add: valid_datetime_def m_def)
  have om: "toordinal m = toordinal now" by (simp add: toordinal_def m_def)
  have wm: "weekday m = weekday now" by (simp add: weekday_def om)
  have "tod m = 0" by (simp add: tod_def m_def)
  then have tm: "instant m = toordinal now * DAY" unfolding instant_tod om by simp
  note ob = toordinal_bounds[OF assms]
  have w: "0 \<le> weekday now" "weekday now \<le> 6" "weekday now \<le> toordinal now - 1"
    using ob(1) unfolding weekday_def by presburger+
  have "0 < toordinal m + - weekday m" "toordinal m + - weekday m \<le> MAXORDINAL"
    using w ob by (simp_all add: om wm)
  from add_days_ok[OF vm this] obtain s where
    s: "add_days m (- weekday m) = Inr s" "valid_datetime s"
       "toordinal s = toordinal m + - weekday m"
       "hour s = hour m" "minute s = minute m" "second s = second m"
       "microsecond s = microsecond m" "instant s = instant m + - weekday m * DAY"
    by blast
  have "get_period_start ''weekly'' now = Inr s"
    using s(1) by (simp add: get_period_start_def Let_def m_def sub_days_def)
  moreover have "weekday s = 0"
    unfolding weekday_def s(3) om wm by (simp add: weekday_def) presburger
  moreover have "instant s \<le> instant now \<and> instant now < instant s + 7 * DAY"
    using s(8) w tod_bounds[OF assms] unfolding tm wm instant_tod[of now]
    by (simp add: DAY_def)
  ultimately show ?thesis using s(2-7) by (simp add: om wm) (simp add: m_def)
qed

lemma monthly_start_ok:
  assumes "valid_datetime now"
  shows "\<exists>s. get_period_start ''monthly'' now = Inr s
          \<and> s = now\<lparr>day := 1, hour := 0, minute := 0, second := 0, microsecond := 0\<rparr>
          \<and> valid_datetime s \<and> instant s \<le> instant now"
proof -
  define s where "s = now\<lparr>day := 1, hour := 0, minute := 0, second := 0, microsecond := 0\<rparr>"
  have "get_period_start ''monthly'' now = Inr s" by (simp add: get_period_start_def s_def)
  moreover have v: "1 \<le> month now" "month now \<le> 12" "1 \<le> day now"
    using assms by (simp_all add: valid_datetime_def)
  have "1 \<le> days_in_month (year now) (month now)"
    using assms by (simp add: valid_datetime_def)
  then have "valid_datetime s" using assms by (simp add: valid_datetime_def s_def)
  moreover have "toordinal s \<le> toordinal now" using v by (simp add: toordinal_def ymd2ord_def s_def)
  then have "toordinal s * DAY \<le> toordinal now * DAY" by (simp add: DAY_def)
  moreover have "tod s = 0" by (simp add: tod_def s_def)
  ultimately have "instant s \<le> instant now" "get_period_start ''monthly'' now = Inr s"
    "valid_datetime s"
    using tod_bounds[OF assms] unfolding instant_tod by (simp_all add: DAY_def)
  then show ?thesis by (simp add: s_def)
qed

section \<open>Facts about the store\<close>

lemma in_range_due:
  assumes "store_in_range ud"
  shows "\<exists>dd dw. add_days (last_reset_daily ud) 1 = Inr dd \<and> valid_datetime dd
           \<and> instant dd = instant (last_reset_daily ud) + DAY
           \<and> add_days (last_reset_weekly ud) 7 = Inr dw \<and> valid_datetime dw
           \<and> instant dw = instant (last_reset_weekly ud) + 7 * DAY"
proof -
  have v: "valid_datetime (last_reset_daily ud)" "valid_datetime (last_reset_weekly ud)"
    and r: "toordinal (last_reset_daily ud) + 1 \<le> MAXORDINAL"
           "toordinal (last_reset_weekly ud) + 7 \<le> MAXORDINAL"
    using assms by (simp_all add: store_in_range_def)
  have "0 < toordinal (last_reset_daily ud) + 1" using toordinal_bounds(1)[OF v(1)] by simp
  from add_days_ok[OF v(1) this r(1)] obtain dd where
    "add_days (last_reset_daily ud) 1 = Inr dd" "valid_datetime dd"
    "instant dd = instant (last_reset_daily ud) + 1 * DAY" by blast
  moreover have "0 < toordinal (last_reset_weekly ud) + 7" using toordinal_bounds(1)[OF v(2)] by simp
  from add_days_ok[OF v(2) this r(2)] obtain dw where
    "add_days (last_reset_weekly ud) 7 = Inr dw" "valid_datetime dw"
    "instant dw = instant (last_reset_weekly ud) + 7 * DAY" by blast
  ultimately show ?thesis by simp
qed

lemma rolled_stats_simps:
  "rolled_stats False False False st = st"
  "rolled_stats True W M st = rolled_stats False W M (zero_daily st)"
  "rolled_stats False True M st = rolled_stats False False M (zero_weekly st)"
  "rolled_stats False False True st = zero_monthly st"
  by (cases st; simp add: rolled_stats_def zero_daily_def zero_weekly_def zero_monthly_def)+

lemma rolled_stats_steps:
  "rolled_stats D W M =
     (\<lambda>st. (if M then zero_monthly else id)
        ((if W then zero_weekly else id) ((if D then zero_daily else id) st)))"
proof
  fix st
  show "rolled_stats D W M st =
     (if M then zero_monthly else id) ((if W then zero_weekly else id) ((if D then zero_daily else id) st))"
    by (cases st) (simp add: rolled_stats_def zero_daily_def zero_weekly_def zero_monthly_def)
qed

lemma reset_if_needed_closed:
  assumes "valid_datetime now" "store_in_range ud"
  shows "\<exists>sd sw sm.
           get_period_start ''daily'' now = Inr sd \<and>
           get_period_start ''weekly'' now = Inr sw \<and>
           get_period_start ''monthly'' now = Inr sm \<and>
           reset_if_needed now ud =
             (None,
              ud\<lparr>last_reset_daily := (if daily_due now ud then sd else last_reset_daily ud),
                 daily_requests := (if daily_due now ud then 0 else daily_requests ud),
                 last_reset_weekly := (if weekly_due now ud then sw else last_reset_weekly ud),
                 weekly_requests := (if weekly_due now ud then 0 else weekly_requests ud),
                 last_reset_monthly := (if monthly_due now ud then sm else last_reset_monthly ud),
                 monthly_requests := (if monthly_due now ud then 0 else monthly_requests ud),
                 models := (\<lambda>k. map_option
                    (rolled_stats (daily_due now ud) (weekly_due now ud) (monthly_due now ud))
                    (models ud k))\<rparr>)"
proof -
  from in_range_due[OF assms(2)] obtain dd dw where
    due: "add_days (last_reset_daily ud) 1 = Inr dd" "add_days (last_reset_weekly ud) 7 = Inr dw"
    by blast
  from daily_start_ok[OF assms(1)] obtain sd where sd: "get_period_start ''daily'' now = Inr sd"
    by blast
  from weekly_start_ok[OF assms(1)] obtain sw where sw: "get_period_start ''weekly'' now = Inr sw"
    by blast
  from monthly_start_ok[OF assms(1)] obtain sm where sm: "get_period_start ''monthly'' now = Inr sm"
    by blast
  define D where "D = daily_due now ud"
  define W where "W = weekly_due now ud"
  define M where "M = monthly_due now ud"
  have D: "dt_ge now dd \<longleftrightarrow> D" by (simp add: D_def daily_due_def due)
  have W: "dt_ge now dw \<longleftrightarrow> W" by (simp add: W_def weekly_due_def due)
  have M: "month now \<noteq> month (last_reset_monthly ud) \<longleftrightarrow> M" by (simp add: M_def monthly_due_def)
  define ud1 where "ud1 = (if D then ud\<lparr>last_reset_daily := sd, daily_requests := 0,
                            models := for_values zero_daily (models ud)\<rparr> else ud)"
  define ud2 where "ud2 = (if W then ud1\<lparr>last_reset_weekly := sw, weekly_requests := 0,
                            models := for_values zero_weekly (models ud1)\<rparr> else ud1)"
  define ud3 where "ud3 = (if M then ud2\<lparr>last_reset_monthly := sm, monthly_requests := 0,
                            models := for_values zero_monthly (models ud2)\<rparr> else ud2)"
  have c1: "check_daily_reset now ud = Inr ud1"
    by (simp add: check_daily_reset_def due sd D ud1_def)
  have lw: "last_reset_weekly ud1 = last_reset_weekly ud" by (simp add: ud1_def)
  have c2: "check_weekly_reset now ud1 = Inr ud2"
    by (simp add: check_weekly_reset_def lw due sw W ud2_def)
  have lm: "last_reset_monthly ud2 = last_reset_monthly ud" by (simp add: ud2_def ud1_def)
  have c3: "check_monthly_reset now ud2 = Inr ud3"
    using M by (simp add: check_monthly_reset_def lm sm ud3_def)
  have r: "reset_if_needed now ud = (None, ud3)"
    by (simp add: reset_if_needed_def c1 c2 c3)
  have m: "models ud3 = (\<lambda>k. map_option (rolled_stats D W M) (models ud k))"
    by (rule ext)
       (simp add: ud3_def ud2_def ud1_def for_values_def rolled_stats_steps option.map_comp comp_def
          option.map_ident)
  have "ud3 = ud\<lparr>last_reset_daily := (if D then sd else last_reset_daily ud),
                 daily_requests := (if D then 0 else daily_requests ud),
                 last_reset_weekly := (if W then sw else last_reset_weekly ud),
                 weekly_requests := (if W then 0 else weekly_requests ud),
                 last_reset_monthly := (if M then sm else last_reset_monthly ud),
                 monthly_requests := (if M then 0 else monthly_requests ud),
                 models := (\<lambda>k. map_option (rolled_stats D W M) (models ud k))\<rparr>"
    unfolding m[symmetric] by (simp add: ud3_def ud2_def ud1_def)
  then show ?thesis using sd sw sm r unfolding D_def W_def M_def by simp
qed

lemma due_instants:
  assumes "valid_datetime now" "store_in_range ud"
  shows "daily_due now ud \<longleftrightarrow> instant (last_reset_daily ud) + DAY \<le> instant now"
    and "weekly_due now ud \<longleftrightarrow> instant (last_reset_weekly ud) + 7 * DAY \<le> instant now"
proof -
  from in_range_due[OF assms(2)] obtain dd dw where
    d: "add_days (last_reset_daily ud) 1 = Inr dd" "valid_datetime dd"
       "instant dd = instant (last_reset_daily ud) + DAY"
    and w: "add_days (last_reset_weekly ud) 7 = Inr dw" "valid_datetime dw"
       "instant dw = instant (last_reset_weekly ud) + 7 * DAY"
    by blast
  show "daily_due now ud \<longleftrightarrow> instant (last_reset_daily ud) + DAY \<le> instant now"
    using dt_ge_instant[OF assms(1) d(2)] by (simp add: daily_due_def d)
  show "weekly_due now ud \<longleftrightarrow> instant (last_reset_weekly ud) + 7 * DAY \<le> instant now"
    using dt_ge_instant[OF assms(1) w(2)] by (simp add: weekly_due_def w)
qed

text \<open>
  Outside that range the check raises, as Python does: with a daily stamp on 9999-12-31,
  \<open>last_reset_daily + 1 day\<close> is no date, and the store is left as it was.
\<close>

lemma reset_if_needed_out_of_range:
  assumes "last_reset_daily ud = mk_datetime 9999 12 31 0 0 0 0"
  shows "reset_if_needed now ud = (Some OverflowError, ud)"
proof -
  have "add_days (mk_datetime 9999 12 31 0 0 0 0) 1 = Inl OverflowError" by code_simp
  then show ?thesis by (simp add: reset_if_needed_def check_daily_reset_def assms)
qed

lemma example_now_valid: "valid_datetime (mk_datetime 2024 1 16 10 0 0 0)"
  by code_simp

lemma example_store_in_range: "store_in_range example_store"
  by code_simp

section \<open>The claims\<close>

subsection \<open>The rollover check\<close>

text \<open>
  C1. For a valid instant \<open>now\<close> and a store whose reset stamps are valid dates early
  enough for \<open>+ 1 day\<close> and \<open>+ 7 days\<close> to stay within Python's date range, the rollover
  check returns without raising. The daily reset fires exactly when
  \<open>now \<ge> last_reset_daily + 1 day\<close>, the weekly one exactly when
  \<open>now \<ge> last_reset_weekly + 7 days\<close>, the monthly one exactly when the month numbers
  differ. A reset that fires sets its \<open>last_reset_*\<close> to the period start of \<open>now\<close>, its
  request counter to 0 and its three token fields to 0 in every model entry; a reset that
  does not fire leaves all of these as they were. \<open>total_requests\<close> and the lifetime token
  fields are kept in both cases.
\<close>

theorem reset_if_needed_rollover:
  assumes "valid_datetime now" and "store_in_range ud"
  shows "\<exists>ud' sd sw sm.
           reset_if_needed now ud = (None, ud') \<and>
           get_period_start ''daily'' now = Inr sd \<and>
           get_period_start ''weekly'' now = Inr sw \<and>
           get_period_start ''monthly'' now = Inr sm \<and>
           (daily_due now ud \<longleftrightarrow> instant (last_reset_daily ud) + DAY \<le> instant now) \<and>
           (weekly_due now ud \<longleftrightarrow> instant (last_reset_weekly ud) + 7 * DAY \<le> instant now) \<and>
           (monthly_due now ud \<longleftrightarrow> month now \<noteq> month (last_reset_monthly ud)) \<and>
           last_reset_daily ud' = (if daily_due now ud then sd else last_reset_daily ud) \<and>
           daily_requests ud' = (if daily_due now ud then 0 else daily_requests ud) \<and>
           last_reset_weekly ud' = (if weekly_due now ud then sw else last_reset_weekly ud) \<and>
           weekly_requests ud' = (if weekly_due now ud then 0 else weekly_requests ud) \<and>
           last_reset_monthly ud' = (if monthly_due now ud then sm else last_reset_monthly ud) \<and>
           monthly_requests ud' = (if monthly_due now ud then 0 else monthly_requests ud) \<and>
           total_requests ud' = total_requests ud \<and>
           (\<forall>k. models ud' k =
              map_option
                (rolled_stats (daily_due now ud) (weekly_due now ud) (monthly_due now ud))
                (models ud k))"
proof -
  from reset_if_needed_closed[OF assms] obtain sd sw sm where
    s: "get_period_start ''daily'' now = Inr sd" "get_period_start ''weekly'' now = Inr sw"
       "get_period_start ''monthly'' now = Inr sm"
    and r: "reset_if_needed now ud =
             (None,
              ud\<lparr>last_reset_daily := (if daily_due now ud then sd else last_reset_daily ud),
                 daily_requests := (if daily_due now ud then 0 else daily_requests ud),
                 last_reset_weekly := (if weekly_due now ud then sw else last_reset_weekly ud),
                 weekly_requests := (if weekly_due now ud then 0 else weekly_requests ud),
                 last_reset_monthly := (if monthly_due now ud then sm else last_reset_monthly ud),
                 monthly_requests := (if monthly_due now ud then 0 else monthly_requests ud),
                 models := (\<lambda>k. map_option
                    (rolled_stats (daily_due now ud) (weekly_due now ud) (monthly_due now ud))
                    (models ud k))\<rparr>)"
    by blast
  show ?thesis
    unfolding r s using due_instants[OF assms] by (simp add: monthly_due_def)
qed

theorem reset_if_needed_rollover_witness:
  "valid_datetime (mk_datetime 2024 1 16 10 0 0 0) \<and> store_in_range example_store \<and>
   (\<exists>ud'. reset_if_needed (mk_datetime 2024 1 16 10 0 0 0) example_store = (None, ud') \<and>
      last_reset_daily ud' = mk_datetime 2024 1 16 0 0 0 0 \<and>
      daily_requests ud' = 0 \<and>
      last_reset_weekly ud' = mk_datetime 2024 1 15 0 0 0 0 \<and>
      weekly_requests ud' = 1 \<and>
      last_reset_monthly ud' = mk_datetime 2024 1 1 0 0 0 0 \<and>
      monthly_requests ud' = 1 \<and>
      total_requests ud' = 1 \<and>
      models ud' ''model-x'' = Some (rolled_stats True False False example_stats))"
proof -
  let ?now = "mk_datetime 2024 1 16 10 0 0 0"
  have d: "daily_due ?now example_store" by code_simp
  have w: "\<not> weekly_due ?now example_store" by code_simp
  have m: "\<not> monthly_due ?now example_store" by code_simp
  have sd: "get_period_start ''daily'' ?now = Inr (mk_datetime 2024 1 16 0 0 0 0)" by code_simp
  have f: "last_reset_weekly example_store = mk_datetime 2024 1 15 0 0 0 0"
    "last_reset_monthly example_store = mk_datetime 2024 1 1 0 0 0 0"
    "weekly_requests example_store = 1" "monthly_requests example_store = 1"
    "total_requests example_store = 1" "models example_store ''model-x'' = Some example_stats"
    by (simp_all add: example_store_def)
  from reset_if_needed_rollover[OF example_now_valid example_store_in_range]
  show ?thesis
    using example_now_valid example_store_in_range
    by (auto simp: d w m sd f)
qed

subsection \<open>The period boundary\<close>

text \<open>
  C7. \<open>get_period_start\<close> returns: for \<open>daily\<close>, \<open>now\<close> with hour, minute, second and
  microsecond set to zero; for \<open>weekly\<close> (and a valid \<open>now\<close>), that daily start minus
  \<open>weekday(now)\<close> days, which is a day with weekday index 0 at 00:00:00, at most six days
  before \<open>now\<close>'s date; for \<open>monthly\<close>, \<open>now\<close> with day 1 and the time set to zero; for
  any other tag, \<open>now\<close> itself. Index 0 is Monday: 2024-01-15, a Monday, has index 0.
\<close>

theorem get_period_start_by_tag:
  "get_period_start ''daily'' now
     = Inr (now\<lparr>hour := 0, minute := 0, second := 0, microsecond := 0\<rparr>)
   \<and> (valid_datetime now \<longrightarrow>
        (\<exists>w. get_period_start ''weekly'' now = Inr w
           \<and> sub_days (now\<lparr>hour := 0, minute := 0, second := 0, microsecond := 0\<rparr>)
                (weekday now) = Inr w
           \<and> 0 \<le> weekday now \<and> weekday now \<le> 6
           \<and> valid_datetime w
           \<and> toordinal w = toordinal now - weekday now
           \<and> weekday w = 0
           \<and> hour w = 0 \<and> minute w = 0 \<and> second w = 0 \<and> microsecond w = 0))
   \<and> get_period_start ''monthly'' now
       = Inr (now\<lparr>day := 1, hour := 0, minute := 0, second := 0, microsecond := 0\<rparr>)
   \<and> (period \<noteq> ''daily'' \<and> period \<noteq> ''weekly'' \<and> period \<noteq> ''monthly''
        \<longrightarrow> get_period_start period now = Inr now)
   \<and> weekday (mk_datetime 2024 1 15 10 0 0 0) = 0"
proof -
  have d: "get_period_start ''daily'' now
     = Inr (now\<lparr>hour := 0, minute := 0, second := 0, microsecond := 0\<rparr>)"
    by (simp add: get_period_start_def)
  have m: "get_period_start ''monthly'' now
       = Inr (now\<lparr>day := 1, hour := 0, minute := 0, second := 0, microsecond := 0\<rparr>)"
    by (simp add: get_period_start_def)
  have o: "period \<noteq> ''daily'' \<and> period \<noteq> ''weekly'' \<and> period \<noteq> ''monthly''
        \<longrightarrow> get_period_start period now = Inr now"
    by (simp add: get_period_start_def)
  have mon: "weekday (mk_datetime 2024 1 15 10 0 0 0) = 0" by code_simp
  have w: "\<exists>w. get_period_start ''weekly'' now = Inr w
           \<and> sub_days (now\<lparr>hour := 0, minute := 0, second := 0, microsecond := 0\<rparr>)
                (weekday now) = Inr w
           \<and> 0 \<le> weekday now \<and> weekday now \<le> 6
           \<and> valid_datetime w
           \<and> toordinal w = toordinal now - weekday now
           \<and> weekday w = 0
           \<and> hour w = 0 \<and> minute w = 0 \<and> second w = 0 \<and> microsecond w = 0"
    if v: "valid_datetime now"
  proof -
    from weekly_start_ok[OF v] obtain w where
      w: "get_period_start ''weekly'' now = Inr w" "valid_datetime w"
         "toordinal w = toordinal now - weekday now" "weekday w = 0"
         "hour w = 0" "minute w = 0" "second w = 0" "microsecond w = 0"
      by blast
    have "weekday (now\<lparr>hour := 0, minute := 0, second := 0, microsecond := 0\<rparr>) = weekday now"
      by (simp add: weekday_def toordinal_def)
    then have "sub_days (now\<lparr>hour := 0, minute := 0, second := 0, microsecond := 0\<rparr>)
                (weekday now) = Inr w"
      using w(1) by (simp add: get_period_start_def Let_def)
    then show ?thesis using w weekday_range[of now] by blast
  qed
  show ?thesis using d m o mon w by blast
qed

theorem get_period_start_by_tag_witness:
  "valid_datetime (mk_datetime 2024 1 17 13 45 30 500000)
   \<and> ''yearly'' \<noteq> ''daily'' \<and> ''yearly'' \<noteq> ''weekly'' \<and> ''yearly'' \<noteq> ''monthly''
   \<and> get_period_start ''daily'' (mk_datetime 2024 1 17 13 45 30 500000)
       = Inr (mk_datetime 2024 1 17 0 0 0 0)
   \<and> weekday (mk_datetime 2024 1 17 13 45 30 500000) = 2
   \<and> get_period_start ''weekly'' (mk_datetime 2024 1 17 13 45 30 500000)
       = Inr (mk_datetime 2024 1 15 0 0 0 0)
   \<and> get_period_start ''monthly'' (mk_datetime 2024 1 17 13 45 30 500000)
       = Inr (mk_datetime 2024 1 1 0 0 0 0)
   \<and> get_period_start ''yearly'' (mk_datetime 2024 1 17 13 45 30 500000)
       = Inr (mk_datetime 2024 1 17 13 45 30 500000)"
proof -
  let ?now = "mk_datetime 2024 1 17 13 45 30 500000"
  have v: "valid_datetime ?now" by code_simp
  have wd: "weekday ?now = 2" by code_simp
  have sub: "sub_days (mk_datetime 2024 1 17 0 0 0 0) 2 = Inr (mk_datetime 2024 1 15 0 0 0 0)"
    by code_simp
  have upd: "?now\<lparr>hour := 0, minute := 0, second := 0, microsecond := 0\<rparr>
       = mk_datetime 2024 1 17 0 0 0 0"
    "?now\<lparr>day := 1, hour := 0, minute := 0, second := 0, microsecond := 0\<rparr>
       = mk_datetime 2024 1 1 0 0 0 0"
    by (simp_all add: mk_datetime_def)
  from get_period_start_by_tag[of ?now "''yearly''"]
  show ?thesis using v by (auto simp: wd sub upd)
qed

subsection \<open>Recording a report\<close>

lemma update_usage_stats_closed:
  assumes "valid_datetime now" "store_in_range ud" "usage_metadata result = Some usage"
  shows "\<exists>ud1. reset_if_needed now ud = (None, ud1) \<and>
           update_usage_stats now model_name result ud =
             (None,
              ud1\<lparr>total_requests := total_requests ud1 + 1,
                  daily_requests := daily_requests ud1 + 1,
                  weekly_requests := weekly_requests ud1 + 1,
                  monthly_requests := monthly_requests ud1 + 1,
                  models := (models ud1)(model_name \<mapsto>
                     add_tokens (getattr (prompt_token_count usage) 0)
                       (getattr (candidates_token_count usage) 0)
                       (getattr (total_token_count usage) 0)
                       (case models ud1 model_name of None \<Rightarrow> default_factory | Some st \<Rightarrow> st))\<rparr>)"
proof -
  from reset_if_needed_closed[OF assms(1,2)] obtain ud1 where
    r: "reset_if_needed now ud = (None, ud1)" by blast
  show ?thesis
    unfolding r update_usage_stats_def assms(3)
    by (cases "models ud1 model_name") (simp_all add: Let_def models_getitem_def)
qed

lemma scenario_init: "init (mk_datetime 2024 1 15 10 0 0 0) = Inr scenario_store0"
proof -
  have "get_period_start ''daily'' (mk_datetime 2024 1 15 10 0 0 0)
          = Inr (mk_datetime 2024 1 15 0 0 0 0)"
       "get_period_start ''weekly'' (mk_datetime 2024 1 15 10 0 0 0)
          = Inr (mk_datetime 2024 1 15 0 0 0 0)"
       "get_period_start ''monthly'' (mk_datetime 2024 1 15 10 0 0 0)
          = Inr (mk_datetime 2024 1 1 0 0 0 0)"
    by code_simp+
  then show ?thesis by (simp add: init_def scenario_store0_def)
qed

lemma scenario_dates:
  "add_days (mk_datetime 2024 1 15 0 0 0 0) 1 = Inr (mk_datetime 2024 1 16 0 0 0 0)"
  "add_days (mk_datetime 2024 1 15 0 0 0 0) 7 = Inr (mk_datetime 2024 1 22 0 0 0 0)"
  "\<not> dt_ge (mk_datetime 2024 1 15 10 5 0 0) (mk_datetime 2024 1 16 0 0 0 0)"
  "\<not> dt_ge (mk_datetime 2024 1 15 10 5 0 0) (mk_datetime 2024 1 22 0 0 0 0)"
  "dt_ge (mk_datetime 2024 1 16 10 0 0 0) (mk_datetime 2024 1 16 0 0 0 0)"
  "\<not> dt_ge (mk_datetime 2024 1 16 10 0 0 0) (mk_datetime 2024 1 22 0 0 0 0)"
  "month (mk_datetime 2024 1 15 10 5 0 0) = 1"
  "month (mk_datetime 2024 1 16 10 0 0 0) = 1"
  "month (mk_datetime 2024 1 1 0 0 0 0) = 1"
  "get_period_start ''daily'' (mk_datetime 2024 1 16 10 0 0 0)
     = Inr (mk_datetime 2024 1 16 0 0 0 0)"
  by code_simp+

lemma scenario_reset1:
  "reset_if_needed (mk_datetime 2024 1 15 10 5 0 0) scenario_store0 = (None, scenario_store0)"
  by (simp add: reset_if_needed_def check_daily_reset_def check_weekly_reset_def
      check_monthly_reset_def scenario_store0_def scenario_dates)

lemma scenario_call1:
  "update_usage_stats (mk_datetime 2024 1 15 10 5 0 0) ''model-x'' (mk_result 10 5 15)
     scenario_store0 = (None, scenario_store1)"
  by (simp add: update_usage_stats_def scenario_reset1 mk_result_def getattr_def Let_def)
     (simp add: scenario_store0_def scenario_store1_def models_getitem_def add_tokens_def
       default_factory_def example_stats_def)

lemma scenario_reset2:
  "reset_if_needed (mk_datetime 2024 1 16 10 0 0 0) scenario_store1 =
     (None, scenario_store1
        \<lparr>last_reset_daily := mk_datetime 2024 1 16 0 0 0 0, daily_requests := 0,
         models := [''model-x'' \<mapsto> zero_daily example_stats]\<rparr>)"
  by (simp add: reset_if_needed_def check_daily_reset_def check_weekly_reset_def
      check_monthly_reset_def scenario_store1_def scenario_dates)
     (auto simp: for_values_def)

lemma scenario_call2:
  "update_usage_stats (mk_datetime 2024 1 16 10 0 0 0) ''model-x'' (mk_result 1 1 2)
     scenario_store1 = (None, scenario_store2)"
  by (simp add: update_usage_stats_def scenario_reset2 mk_result_def getattr_def Let_def)
     (simp add: scenario_store1_def scenario_store2_def models_getitem_def add_tokens_def
       zero_daily_def example_stats_def)

text \<open>
  C2. With usage metadata that reports all three counts, \<open>update_usage_stats\<close> first
  applies the rollover check for \<open>now\<close>; on its result it increments \<open>total_requests\<close>,
  \<open>daily_requests\<close>, \<open>weekly_requests\<close> and \<open>monthly_requests\<close> by exactly 1, keeps the
  reset stamps and every other model's entry, and stores for the model an entry whose
  lifetime and daily, weekly and monthly token fields are those of the entry after the
  rollover (all zero when the model had no entry) plus the reported input, output and
  total counts. In Scenario B the second call, one day later, yields \<open>daily_requests = 1\<close>,
  \<open>total_requests = 2\<close>, lifetime \<open>input_tokens = 11\<close> and \<open>daily_input_tokens = 1\<close>.
\<close>

theorem update_usage_stats_records:
  "(valid_datetime now \<and> store_in_range ud \<and> result = mk_result inp outp tot \<longrightarrow>
      (\<exists>ud1 ud2 st.
         reset_if_needed now ud = (None, ud1) \<and>
         update_usage_stats now model_name result ud = (None, ud2) \<and>
         total_requests ud2 = total_requests ud1 + 1 \<and>
         daily_requests ud2 = daily_requests ud1 + 1 \<and>
         weekly_requests ud2 = weekly_requests ud1 + 1 \<and>
         monthly_requests ud2 = monthly_requests ud1 + 1 \<and>
         last_reset_daily ud2 = last_reset_daily ud1 \<and>
         last_reset_weekly ud2 = last_reset_weekly ud1 \<and>
         last_reset_monthly ud2 = last_reset_monthly ud1 \<and>
         (\<forall>k. k \<noteq> model_name \<longrightarrow> models ud2 k = models ud1 k) \<and>
         models ud2 model_name = Some st \<and>
         (models ud1 model_name = None \<longrightarrow>
            input_tokens st = inp \<and> output_tokens st = outp \<and> total_tokens st = tot \<and>
            daily_input_tokens st = inp \<and> daily_output_tokens st = outp \<and>
            daily_total_tokens st = tot \<and>
            weekly_input_tokens st = inp \<and> weekly_output_tokens st = outp \<and>
            weekly_total_tokens st = tot \<and>
            monthly_input_tokens st = inp \<and> monthly_output_tokens st = outp \<and>
            monthly_total_tokens st = tot) \<and>
         (\<forall>st1. models ud1 model_name = Some st1 \<longrightarrow>
            input_tokens st = input_tokens st1 + inp \<and>
            output_tokens st = output_tokens st1 + outp \<and>
            total_tokens st = total_tokens st1 + tot \<and>
            daily_input_tokens st = daily_input_tokens st1 + inp \<and>
            daily_output_tokens st = daily_output_tokens st1 + outp \<and>
            daily_total_tokens st = daily_total_tokens st1 + tot \<and>
            weekly_input_tokens st = weekly_input_tokens st1 + inp \<and>
            weekly_output_tokens st = weekly_output_tokens st1 + outp \<and>
            weekly_total_tokens st = weekly_total_tokens st1 + tot \<and>
            monthly_input_tokens st = monthly_input_tokens st1 + inp \<and>
            monthly_output_tokens st = monthly_output_tokens st1 + outp \<and>
            monthly_total_tokens st = monthly_total_tokens st1 + tot)))
   \<and> (\<exists>s0 s1 s2 st.
         init (mk_datetime 2024 1 15 10 0 0 0) = Inr s0 \<and>
         update_usage_stats (mk_datetime 2024 1 15 10 5 0 0) ''model-x'' (mk_result 10 5 15) s0
           = (None, s1) \<and>
         update_usage_stats (mk_datetime 2024 1 16 10 0 0 0) ''model-x'' (mk_result 1 1 2) s1
           = (None, s2) \<and>
         daily_requests s2 = 1 \<and> total_requests s2 = 2 \<and>
         models s2 ''model-x'' = Some st \<and> input_tokens st = 11 \<and> daily_input_tokens st = 1)"
proof (intro conjI impI)
  assume a: "valid_datetime now \<and> store_in_range ud \<and> result = mk_result inp outp tot"
  define usage where "usage = \<lparr>prompt_token_count = Some inp,
                             candidates_token_count = Some outp,
                             total_token_count = Some tot\<rparr>"
  have u: "usage_metadata result = Some usage" using a by (simp add: mk_result_def usage_def)
  have g: "getattr (prompt_token_count usage) 0 = inp"
    "getattr (candidates_token_count usage) 0 = outp"
    "getattr (total_token_count usage) 0 = tot"
    by (simp_all add: usage_def getattr_def)
  from a have v: "valid_datetime now" and r: "store_in_range ud" by simp_all
  from update_usage_stats_closed[OF v r u, of model_name] obtain ud1 where
    r1: "reset_if_needed now ud = (None, ud1)"
    and u1: "update_usage_stats now model_name result ud =
             (None,
              ud1\<lparr>total_requests := total_requests ud1 + 1,
                  daily_requests := daily_requests ud1 + 1,
                  weekly_requests := weekly_requests ud1 + 1,
                  monthly_requests := monthly_requests ud1 + 1,
                  models := (models ud1)(model_name \<mapsto>
                     add_tokens inp outp tot
                       (case models ud1 model_name of None \<Rightarrow> default_factory | Some st \<Rightarrow> st))\<rparr>)"
    unfolding g by blast
  show "\<exists>ud1 ud2 st.
         reset_if_needed now ud = (None, ud1) \<and>
         update_usage_stats now model_name result ud = (None, ud2) \<and>
         total_requests ud2 = total_requests ud1 + 1 \<and>
         daily_requests ud2 = daily_requests ud1 + 1 \<and>
         weekly_requests ud2 = weekly_requests ud1 + 1 \<and>
         monthly_requests ud2 = monthly_requests ud1 + 1 \<and>
         last_reset_daily ud2 = last_reset_daily ud1 \<and>
         last_reset_weekly ud2 = last_reset_weekly ud1 \<and>
         last_reset_monthly ud2 = last_reset_monthly ud1 \<and>
         (\<forall>k. k \<noteq> model_name \<longrightarrow> models ud2 k = models ud1 k) \<and>
         models ud2 model_name = Some st \<and>
         (models ud1 model_name = None \<longrightarrow>
            input_tokens st = inp \<and> output_tokens st = outp \<and> total_tokens st = tot \<and>
            daily_input_tokens st = inp \<and> daily_output_tokens st = outp \<and>
            daily_total_tokens st = tot \<and>
            weekly_input_tokens st = inp \<and> weekly_output_tokens st = outp \<and>
            weekly_total_tokens st = tot \<and>
            monthly_input_tokens st = inp \<and> monthly_output_tokens st = outp \<and>
            monthly_total_tokens st = tot) \<and>
         (\<forall>st1. models ud1 model_name = Some st1 \<longrightarrow>
            input_tokens st = input_tokens st1 + inp \<and>
            output_tokens st = output_tokens st1 + outp \<and>
            total_tokens st = total_tokens st1 + tot \<and>
            daily_input_tokens st = daily_input_tokens st1 + inp \<and>
            daily_output_tokens st = daily_output_tokens st1 + outp \<and>
            daily_total_tokens st = daily_total_tokens st1 + tot \<and>
            weekly_input_tokens st = weekly_input_tokens st1 + inp \<and>
            weekly_output_tokens st = weekly_output_tokens st1 + outp \<and>
            weekly_total_tokens st = weekly_total_tokens st1 + tot \<and>
            monthly_input_tokens st = monthly_input_tokens st1 + inp \<and>
            monthly_output_tokens st = monthly_output_tokens st1 + outp \<and>
            monthly_total_tokens st = monthly_total_tokens st1 + tot)"
    unfolding r1 u1
    by (cases "models ud1 model_name") (simp_all add: add_tokens_def default_factory_def)
next
  show "\<exists>s0 s1 s2 st.
         init (mk_datetime 2024 1 15 10 0 0 0) = Inr s0 \<and>
         update_usage_stats (mk_datetime 2024 1 15 10 5 0 0) ''model-x'' (mk_result 10 5 15) s0
           = (None, s1) \<and>
         update_usage_stats (mk_datetime 2024 1 16 10 0 0 0) ''model-x'' (mk_result 1 1 2) s1
           = (None, s2) \<and>
         daily_requests s2 = 1 \<and> total_requests s2 = 2 \<and>
         models s2 ''model-x'' = Some st \<and> input_tokens st = 11 \<and> daily_input_tokens st = 1"
    unfolding scenario_init scenario_call1 scenario_call2
    by (simp add: scenario_call1 scenario_call2 scenario_store2_def)
qed

lemma scenario_store1_in_range: "store_in_range scenario_store1"
  by code_simp

theorem update_usage_stats_records_witness:
  "valid_datetime (mk_datetime 2024 1 16 10 0 0 0) \<and> store_in_range scenario_store1 \<and>
   (\<exists>ud1 st.
      reset_if_needed (mk_datetime 2024 1 16 10 0 0 0) scenario_store1 = (None, ud1) \<and>
      daily_requests ud1 = 0 \<and> total_requests ud1 = 1 \<and>
      update_usage_stats (mk_datetime 2024 1 16 10 0 0 0) ''model-x'' (mk_result 1 1 2)
        scenario_store1 = (None, scenario_store2) \<and>
      daily_requests scenario_store2 = daily_requests ud1 + 1 \<and>
      total_requests scenario_store2 = total_requests ud1 + 1 \<and>
      models scenario_store2 ''model-x'' = Some st \<and>
      input_tokens st = input_tokens example_stats + 1 \<and>
      daily_input_tokens st = 0 + 1)"
proof -
  let ?now = "mk_datetime 2024 1 16 10 0 0 0"
  have "valid_datetime ?now \<and> store_in_range scenario_store1
        \<and> mk_result 1 1 2 = mk_result 1 1 2"
    using example_now_valid scenario_store1_in_range by simp
  with update_usage_stats_records[of ?now scenario_store1 "mk_result 1 1 2" 1 1 2 "''model-x''"]
  obtain ud1 ud2 st where
    r: "reset_if_needed ?now scenario_store1 = (None, ud1)"
    and u: "update_usage_stats ?now ''model-x'' (mk_result 1 1 2) scenario_store1 = (None, ud2)"
    and c: "total_requests ud2 = total_requests ud1 + 1"
           "daily_requests ud2 = daily_requests ud1 + 1"
    and m: "models ud2 ''model-x'' = Some st"
    and t: "\<forall>st1. models ud1 ''model-x'' = Some st1 \<longrightarrow>
            input_tokens st = input_tokens st1 + 1 \<and>
            output_tokens st = output_tokens st1 + 1 \<and>
            total_tokens st = total_tokens st1 + 2 \<and>
            daily_input_tokens st = daily_input_tokens st1 + 1 \<and>
            daily_output_tokens st = daily_output_tokens st1 + 1 \<and>
            daily_total_tokens st = daily_total_tokens st1 + 2 \<and>
            weekly_input_tokens st = weekly_input_tokens st1 + 1 \<and>
            weekly_output_tokens st = weekly_output_tokens st1 + 1 \<and>
            weekly_total_tokens st = weekly_total_tokens st1 + 2 \<and>
            monthly_input_tokens st = monthly_input_tokens st1 + 1 \<and>
            monthly_output_tokens st = monthly_output_tokens st1 + 1 \<and>
            monthly_total_tokens st = monthly_total_tokens st1 + 2"
    by blast
  have ud2: "ud2 = scenario_store2" using u by (simp add: scenario_call2)
  have ud1: "daily_requests ud1 = 0" "total_requests ud1 = 1"
    "models ud1 ''model-x'' = Some (zero_daily example_stats)"
    using r unfolding scenario_reset2 by (auto simp: scenario_store1_def)
  from t ud1(3) have "input_tokens st = input_tokens example_stats + 1"
    "daily_input_tokens st = 0 + 1"
    by (simp_all add: zero_daily_def)
  then show ?thesis
    using example_now_valid scenario_store1_in_range r u c m ud1(1,2) unfolding ud2 by blast
qed

subsection \<open>Reports that lack counts\<close>

lemma add_tokens_zero: "add_tokens 0 0 0 st = st"
  by (cases st) (simp add: add_tokens_def)

text \<open>
  C10. When the result has \<open>usage_metadata\<close>, \<open>update_usage_stats\<close> applies the rollover
  check, increments \<open>total_requests\<close> and the three periodic request counters by 1 and
  stores the model's entry (created from the all-zero default when absent) with each
  count that the metadata lacks taken as 0; when the metadata lacks all three counts the
  entry stored is the entry after the rollover, or the all-zero default. The store after
  the call differs from the store before it. When the result has no \<open>usage_metadata\<close>
  attribute the call returns with the store unchanged.
\<close>

theorem update_usage_stats_missing_counts:
  "(valid_datetime now \<and> store_in_range ud \<and> usage_metadata result = Some usage \<longrightarrow>
      (\<exists>ud1 ud2 st1.
         reset_if_needed now ud = (None, ud1) \<and>
         update_usage_stats now model_name result ud = (None, ud2) \<and>
         total_requests ud2 = total_requests ud1 + 1 \<and>
         daily_requests ud2 = daily_requests ud1 + 1 \<and>
         weekly_requests ud2 = weekly_requests ud1 + 1 \<and>
         monthly_requests ud2 = monthly_requests ud1 + 1 \<and>
         st1 = (case models ud1 model_name of None \<Rightarrow> default_factory | Some x \<Rightarrow> x) \<and>
         models ud2 model_name =
           Some (add_tokens
                   (case prompt_token_count usage of None \<Rightarrow> 0 | Some v \<Rightarrow> v)
                   (case candidates_token_count usage of None \<Rightarrow> 0 | Some v \<Rightarrow> v)
                   (case total_token_count usage of None \<Rightarrow> 0 | Some v \<Rightarrow> v) st1) \<and>
         (prompt_token_count usage = None \<and> candidates_token_count usage = None
            \<and> total_token_count usage = None \<longrightarrow> models ud2 model_name = Some st1) \<and>
         ud2 \<noteq> ud))
   \<and> (usage_metadata result = None \<longrightarrow>
         update_usage_stats now model_name result ud = (None, ud))"
proof (intro conjI impI)
  assume a: "valid_datetime now \<and> store_in_range ud \<and> usage_metadata result = Some usage"
  then have v: "valid_datetime now" and r: "store_in_range ud"
    and u: "usage_metadata result = Some usage" by simp_all
  from update_usage_stats_closed[OF v r u, of model_name] obtain ud1 where
    r1: "reset_if_needed now ud = (None, ud1)"
    and u1: "update_usage_stats now model_name result ud =
             (None,
              ud1\<lparr>total_requests := total_requests ud1 + 1,
                  daily_requests := daily_requests ud1 + 1,
                  weekly_requests := weekly_requests ud1 + 1,
                  monthly_requests := monthly_requests ud1 + 1,
                  models := (models ud1)(model_name \<mapsto>
                     add_tokens (getattr (prompt_token_count usage) 0)
                       (getattr (candidates_token_count usage) 0)
                       (getattr (total_token_count usage) 0)
                       (case models ud1 model_name of None \<Rightarrow> default_factory | Some st \<Rightarrow> st))\<rparr>)"
    by blast
  from reset_if_needed_closed[OF v r] r1 have t: "total_requests ud1 = total_requests ud"
    by auto
  define ud2 where "ud2 =
              ud1\<lparr>total_requests := total_requests ud1 + 1,
                  daily_requests := daily_requests ud1 + 1,
                  weekly_requests := weekly_requests ud1 + 1,
                  monthly_requests := monthly_requests ud1 + 1,
                  models := (models ud1)(model_name \<mapsto>
                     add_tokens (getattr (prompt_token_count usage) 0)
                       (getattr (candidates_token_count usage) 0)
                       (getattr (total_token_count usage) 0)
                       (case models ud1 model_name of None \<Rightarrow> default_factory | Some st \<Rightarrow> st))\<rparr>"
  have "total_requests ud2 = total_requests ud + 1" by (simp add: ud2_def t)
  then have ne: "ud2 \<noteq> ud" by auto
  show "\<exists>ud1 ud2 st1.
         reset_if_needed now ud = (None, ud1) \<and>
         update_usage_stats now model_name result ud = (None, ud2) \<and>
         total_requests ud2 = total_requests ud1 + 1 \<and>
         daily_requests ud2 = daily_requests ud1 + 1 \<and>
         weekly_requests ud2 = weekly_requests ud1 + 1 \<and>
         monthly_requests ud2 = monthly_requests ud1 + 1 \<and>
         st1 = (case models ud1 model_name of None \<Rightarrow> default_factory | Some x \<Rightarrow> x) \<and>
         models ud2 model_name =
           Some (add_tokens
                   (case prompt_token_count usage of None \<Rightarrow> 0 | Some v \<Rightarrow> v)
                   (case candidates_token_count usage of None \<Rightarrow> 0 | Some v \<Rightarrow> v)
                   (case total_token_count usage of None \<Rightarrow> 0 | Some v \<Rightarrow> v) st1) \<and>
         (prompt_token_count usage = None \<and> candidates_token_count usage = None
            \<and> total_token_count usage = None \<longrightarrow> models ud2 model_name = Some st1) \<and>
         ud2 \<noteq> ud"
    unfolding r1 u1 using ne unfolding ud2_def by (simp add: getattr_def add_tokens_zero)
next
  assume "usage_metadata result = None"
  then show "update_usage_stats now model_name result ud = (None, ud)"
    by (simp add: update_usage_stats_def)
qed

lemma scenario_store0_in_range: "store_in_range scenario_store0"
  by code_simp

lemma scenario_reset0_next_day:
  "reset_if_needed (mk_datetime 2024 1 16 10 0 0 0) scenario_store0 =
     (None, scenario_store0\<lparr>last_reset_daily := mk_datetime 2024 1 16 0 0 0 0\<rparr>)"
  by (simp add: reset_if_needed_def check_daily_reset_def check_weekly_reset_def
      check_monthly_reset_def scenario_store0_def scenario_dates)
     (auto simp: for_values_def)

theorem update_usage_stats_missing_counts_witness:
  "valid_datetime (mk_datetime 2024 1 16 10 0 0 0) \<and> store_in_range scenario_store0
   \<and> usage_metadata result_without_counts
       = Some \<lparr>prompt_token_count = None, candidates_token_count = None,
                total_token_count = None\<rparr>
   \<and> (\<exists>ud2. update_usage_stats (mk_datetime 2024 1 16 10 0 0 0) ''model-y''
               result_without_counts scenario_store0 = (None, ud2)
          \<and> total_requests ud2 = 1 \<and> daily_requests ud2 = 1
          \<and> weekly_requests ud2 = 1 \<and> monthly_requests ud2 = 1
          \<and> models ud2 ''model-y'' = Some default_factory
          \<and> ud2 \<noteq> scenario_store0)
   \<and> usage_metadata result_without_metadata = None
   \<and> update_usage_stats (mk_datetime 2024 1 16 10 0 0 0) ''model-y''
        result_without_metadata scenario_store0 = (None, scenario_store0)"
proof -
  let ?now = "mk_datetime 2024 1 16 10 0 0 0"
  let ?u = "\<lparr>prompt_token_count = None, candidates_token_count = None,
             total_token_count = None\<rparr>"
  have m: "usage_metadata result_without_counts = Some ?u"
    by (simp add: result_without_counts_def)
  have n: "usage_metadata result_without_metadata = None"
    by (simp add: result_without_metadata_def)
  have "valid_datetime ?now \<and> store_in_range scenario_store0
        \<and> usage_metadata result_without_counts = Some ?u"
    using example_now_valid scenario_store0_in_range m by simp
  with update_usage_stats_missing_counts[of ?now scenario_store0 result_without_counts ?u
      "''model-y''"]
  obtain ud1 ud2 st1 where
    r: "reset_if_needed ?now scenario_store0 = (None, ud1)"
    and u: "update_usage_stats ?now ''model-y'' result_without_counts scenario_store0 = (None, ud2)"
    and c: "total_requests ud2 = total_requests ud1 + 1"
           "daily_requests ud2 = daily_requests ud1 + 1"
           "weekly_requests ud2 = weekly_requests ud1 + 1"
           "monthly_requests ud2 = monthly_requests ud1 + 1"
    and s: "st1 = (case models ud1 ''model-y'' of None \<Rightarrow> default_factory | Some x \<Rightarrow> x)"
    and z: "prompt_token_count ?u = None \<and> candidates_token_count ?u = None
            \<and> total_token_count ?u = None \<longrightarrow> models ud2 ''model-y'' = Some st1"
    and ne: "ud2 \<noteq> scenario_store0"
    by blast
  have ud1: "total_requests ud1 = 0" "daily_requests ud1 = 0" "weekly_requests ud1 = 0"
    "monthly_requests ud1 = 0" "models ud1 ''model-y'' = None"
    using r unfolding scenario_reset0_next_day by (auto simp: scenario_store0_def)
  have "models ud2 ''model-y'' = Some default_factory" using z s ud1(5) by simp
  moreover have "update_usage_stats ?now ''model-y'' result_without_metadata scenario_store0
      = (None, scenario_store0)"
    using update_usage_stats_missing_counts[of ?now scenario_store0 result_without_metadata ?u
      "''model-y''"] n by blast
  ultimately show ?thesis
    using example_now_valid scenario_store0_in_range m n u c ne unfolding ud1 by auto
qed

subsection \<open>Running the check again\<close>

lemma reset_if_needed_noop:
  assumes "valid_datetime now" "store_in_range ud"
    and "\<not> daily_due now ud" "\<not> weekly_due now ud" "\<not> monthly_due now ud"
  shows "reset_if_needed now ud = (None, ud)"
proof -
  have "(\<lambda>k. map_option (rolled_stats False False False) (models ud k)) = models ud"
    by (rule ext) (simp add: rolled_stats_steps option.map_ident)
  then show ?thesis
    using reset_if_needed_closed[OF assms(1,2)] assms(3-5) by auto
qed

lemma reset_if_needed_settles:
  assumes "valid_datetime now" "store_in_range ud" "toordinal now + 7 \<le> MAXORDINAL"
    and "reset_if_needed now ud = (None, ud1)"
  shows "store_in_range ud1 \<and> \<not> daily_due now ud1 \<and> \<not> weekly_due now ud1
         \<and> \<not> monthly_due now ud1"
proof -
  from daily_start_ok[OF assms(1)] obtain sd where
    sd: "get_period_start ''daily'' now = Inr sd" "valid_datetime sd"
        "toordinal sd = toordinal now" "instant now < instant sd + DAY"
    by blast
  from weekly_start_ok[OF assms(1)] obtain sw where
    sw: "get_period_start ''weekly'' now = Inr sw" "valid_datetime sw"
        "toordinal sw = toordinal now - weekday now" "instant now < instant sw + 7 * DAY"
    by blast
  from monthly_start_ok[OF assms(1)] obtain sm where
    sm: "get_period_start ''monthly'' now = Inr sm" "valid_datetime sm"
        "sm = now\<lparr>day := 1, hour := 0, minute := 0, second := 0, microsecond := 0\<rparr>"
    by blast
  have v: "valid_datetime (last_reset_daily ud)" "valid_datetime (last_reset_weekly ud)"
    "valid_datetime (last_reset_monthly ud)"
    "toordinal (last_reset_daily ud) + 1 \<le> MAXORDINAL"
    "toordinal (last_reset_weekly ud) + 7 \<le> MAXORDINAL"
    using assms(2) by (simp_all add: store_in_range_def)
  from reset_if_needed_closed[OF assms(1,2)] assms(4) sd(1) sw(1) sm(1)
  have f: "last_reset_daily ud1 = (if daily_due now ud then sd else last_reset_daily ud)"
    "last_reset_weekly ud1 = (if weekly_due now ud then sw else last_reset_weekly ud)"
    "last_reset_monthly ud1 = (if monthly_due now ud then sm else last_reset_monthly ud)"
    by auto
  have r: "store_in_range ud1"
    using v sd(2,3) sw(2,3) sm(2) assms(3) weekday_range[of now]
    by (simp add: store_in_range_def f)
  have d: "\<not> daily_due now ud1"
  proof (cases "daily_due now ud")
    case True
    then show ?thesis using due_instants(1)[OF assms(1) r] sd(4) by (simp add: f)
  next
    case False
    then show ?thesis by (simp add: daily_due_def f)
  qed
  have w: "\<not> weekly_due now ud1"
  proof (cases "weekly_due now ud")
    case True
    then show ?thesis using due_instants(2)[OF assms(1) r] sw(4) by (simp add: f)
  next
    case False
    then show ?thesis by (simp add: weekly_due_def f)
  qed
  have m: "\<not> monthly_due now ud1"
    by (simp add: monthly_due_def f sm(3))
  show ?thesis using r d w m by simp
qed

text \<open>
  C4. For a valid instant \<open>now\<close> not later than 9999-12-24 and a store in range, the
  rollover check run twice with the same \<open>now\<close> returns both times, and the second
  run leaves the store exactly as the first run left it. When none of the three reset
  conditions holds, one run leaves the store unchanged.
\<close>

theorem reset_if_needed_idempotent:
  assumes "valid_datetime now" and "store_in_range ud" and "toordinal now + 7 \<le> MAXORDINAL"
  shows "\<exists>ud1. reset_if_needed now ud = (None, ud1)
           \<and> reset_if_needed now ud1 = (None, ud1)
           \<and> (\<not> daily_due now ud \<and> \<not> weekly_due now ud \<and> \<not> monthly_due now ud
                \<longrightarrow> ud1 = ud)"
proof -
  from reset_if_needed_closed[OF assms(1,2)] obtain ud1 where
    r: "reset_if_needed now ud = (None, ud1)" by blast
  from reset_if_needed_settles[OF assms r]
  have "reset_if_needed now ud1 = (None, ud1)"
    by (intro reset_if_needed_noop assms(1)) simp_all
  moreover have "ud1 = ud"
    if "\<not> daily_due now ud \<and> \<not> weekly_due now ud \<and> \<not> monthly_due now ud"
    using reset_if_needed_noop[OF assms(1,2)] that r by simp
  ultimately show ?thesis using r by blast
qed

lemma example_now_in_range: "toordinal (mk_datetime 2024 1 16 10 0 0 0) + 7 \<le> MAXORDINAL"
  by code_simp

theorem reset_if_needed_idempotent_witness:
  "valid_datetime (mk_datetime 2024 1 16 10 0 0 0) \<and> store_in_range scenario_store1
   \<and> toordinal (mk_datetime 2024 1 16 10 0 0 0) + 7 \<le> MAXORDINAL
   \<and> (\<exists>ud1. reset_if_needed (mk_datetime 2024 1 16 10 0 0 0) scenario_store1 = (None, ud1)
         \<and> daily_requests ud1 = 0 \<and> daily_requests scenario_store1 = 1
         \<and> reset_if_needed (mk_datetime 2024 1 16 10 0 0 0) ud1 = (None, ud1))
   \<and> valid_datetime (mk_datetime 2024 1 15 10 5 0 0) \<and> store_in_range scenario_store0
   \<and> toordinal (mk_datetime 2024 1 15 10 5 0 0) + 7 \<le> MAXORDINAL
   \<and> \<not> daily_due (mk_datetime 2024 1 15 10 5 0 0) scenario_store0
   \<and> \<not> weekly_due (mk_datetime 2024 1 15 10 5 0 0) scenario_store0
   \<and> \<not> monthly_due (mk_datetime 2024 1 15 10 5 0 0) scenario_store0
   \<and> reset_if_needed (mk_datetime 2024 1 15 10 5 0 0) scenario_store0 = (None, scenario_store0)"
proof -
  let ?t2 = "mk_datetime 2024 1 16 10 0 0 0"
  let ?t1 = "mk_datetime 2024 1 15 10 5 0 0"
  have v1: "valid_datetime ?t1" and b1: "toordinal ?t1 + 7 \<le> MAXORDINAL" by code_simp+
  have n: "\<not> daily_due ?t1 scenario_store0" "\<not> weekly_due ?t1 scenario_store0"
    "\<not> monthly_due ?t1 scenario_store0" by code_simp+
  from reset_if_needed_idempotent[OF example_now_valid scenario_store1_in_range
      example_now_in_range]
  obtain ud1 where a: "reset_if_needed ?t2 scenario_store1 = (None, ud1)"
    "reset_if_needed ?t2 ud1 = (None, ud1)" by blast
  have "daily_requests ud1 = 0" "daily_requests scenario_store1 = 1"
    using a(1) unfolding scenario_reset2 by (auto simp: scenario_store1_def)
  moreover from reset_if_needed_idempotent[OF v1 scenario_store0_in_range b1] n
  have "reset_if_needed ?t1 scenario_store0 = (None, scenario_store0)" by auto
  ultimately show ?thesis
    using example_now_valid scenario_store1_in_range example_now_in_range a v1 b1 n
      scenario_store0_in_range by blast
qed

subsection \<open>One period at a time\<close>

text \<open>
  C5. On a store in range, when only the daily condition holds the rollover check
  changes exactly \<open>last_reset_daily\<close> (to the daily start of \<open>now\<close>), \<open>daily_requests\<close> (to 0)
  and the three daily token fields of every model entry (to 0); likewise for the weekly
  and for the monthly period. Every other field of the store and of each entry is as
  before. In every case \<open>total_requests\<close>, the lifetime token fields of each entry and
  the set of model keys are unchanged.
\<close>

theorem reset_if_needed_window_isolation:
  assumes "valid_datetime now" and "store_in_range ud"
  shows "\<exists>ud' sd sw sm.
           reset_if_needed now ud = (None, ud') \<and>
           get_period_start ''daily'' now = Inr sd \<and>
           get_period_start ''weekly'' now = Inr sw \<and>
           get_period_start ''monthly'' now = Inr sm \<and>
           (daily_due now ud \<and> \<not> weekly_due now ud \<and> \<not> monthly_due now ud \<longrightarrow>
              ud' = ud\<lparr>last_reset_daily := sd, daily_requests := 0,
                       models := (\<lambda>k. map_option (rolled_stats True False False) (models ud k))\<rparr>) \<and>
           (\<not> daily_due now ud \<and> weekly_due now ud \<and> \<not> monthly_due now ud \<longrightarrow>
              ud' = ud\<lparr>last_reset_weekly := sw, weekly_requests := 0,
                       models := (\<lambda>k. map_option (rolled_stats False True False) (models ud k))\<rparr>) \<and>
           (\<not> daily_due now ud \<and> \<not> weekly_due now ud \<and> monthly_due now ud \<longrightarrow>
              ud' = ud\<lparr>last_reset_monthly := sm, monthly_requests := 0,
                       models := (\<lambda>k. map_option (rolled_stats False False True) (models ud k))\<rparr>) \<and>
           total_requests ud' = total_requests ud \<and>
           dom (models ud') = dom (models ud) \<and>
           (\<forall>k st. models ud k = Some st \<longrightarrow>
              (\<exists>st'. models ud' k = Some st' \<and> input_tokens st' = input_tokens st
                 \<and> output_tokens st' = output_tokens st \<and> total_tokens st' = total_tokens st))"
proof -
  from reset_if_needed_closed[OF assms] obtain sd sw sm where
    s: "get_period_start ''daily'' now = Inr sd" "get_period_start ''weekly'' now = Inr sw"
       "get_period_start ''monthly'' now = Inr sm"
    and r: "reset_if_needed now ud =
             (None,
              ud\<lparr>last_reset_daily := (if daily_due now ud then sd else last_reset_daily ud),
                 daily_requests := (if daily_due now ud then 0 else daily_requests ud),
                 last_reset_weekly := (if weekly_due now ud then sw else last_reset_weekly ud),
                 weekly_requests := (if weekly_due now ud then 0 else weekly_requests ud),
                 last_reset_monthly := (if monthly_due now ud then sm else last_reset_monthly ud),
                 monthly_requests := (if monthly_due now ud then 0 else monthly_requests ud),
                 models := (\<lambda>k. map_option
                    (rolled_stats (daily_due now ud) (weekly_due now ud) (monthly_due now ud))
                    (models ud k))\<rparr>)"
    by blast
  have dm: "dom (\<lambda>k. map_option f (models ud k)) = dom (models ud)" for f :: "model_stats \<Rightarrow> model_stats"
    by (auto simp: dom_def)
  show ?thesis
    unfolding r s by (simp add: dm rolled_stats_def)
qed

theorem reset_if_needed_window_isolation_witness:
  "valid_datetime (mk_datetime 2024 1 16 10 0 0 0) \<and> store_in_range scenario_store1
   \<and> daily_due (mk_datetime 2024 1 16 10 0 0 0) scenario_store1
   \<and> \<not> weekly_due (mk_datetime 2024 1 16 10 0 0 0) scenario_store1
   \<and> \<not> monthly_due (mk_datetime 2024 1 16 10 0 0 0) scenario_store1
   \<and> reset_if_needed (mk_datetime 2024 1 16 10 0 0 0) scenario_store1 =
       (None, scenario_store1\<lparr>last_reset_daily := mk_datetime 2024 1 16 0 0 0 0,
          daily_requests := 0,
          models := (\<lambda>k. map_option (rolled_stats True False False) (models scenario_store1 k))\<rparr>)
   \<and> valid_datetime (mk_datetime 2024 1 22 10 0 0 0) \<and> store_in_range weekly_only_store
   \<and> \<not> daily_due (mk_datetime 2024 1 22 10 0 0 0) weekly_only_store
   \<and> weekly_due (mk_datetime 2024 1 22 10 0 0 0) weekly_only_store
   \<and> \<not> monthly_due (mk_datetime 2024 1 22 10 0 0 0) weekly_only_store
   \<and> reset_if_needed (mk_datetime 2024 1 22 10 0 0 0) weekly_only_store =
       (None, weekly_only_store\<lparr>last_reset_weekly := mk_datetime 2024 1 22 0 0 0 0,
          weekly_requests := 0,
          models := (\<lambda>k. map_option (rolled_stats False True False) (models weekly_only_store k))\<rparr>)
   \<and> valid_datetime (mk_datetime 2024 2 1 10 0 0 0) \<and> store_in_range monthly_only_store
   \<and> \<not> daily_due (mk_datetime 2024 2 1 10 0 0 0) monthly_only_store
   \<and> \<not> weekly_due (mk_datetime 2024 2 1 10 0 0 0) monthly_only_store
   \<and> monthly_due (mk_datetime 2024 2 1 10 0 0 0) monthly_only_store
   \<and> reset_if_needed (mk_datetime 2024 2 1 10 0 0 0) monthly_only_store =
       (None, monthly_only_store\<lparr>last_reset_monthly := mk_datetime 2024 2 1 0 0 0 0,
          monthly_requests := 0,
          models := (\<lambda>k. map_option (rolled_stats False False True) (models monthly_only_store k))\<rparr>)"
proof -
  let ?td = "mk_datetime 2024 1 16 10 0 0 0"
  let ?tw = "mk_datetime 2024 1 22 10 0 0 0"
  let ?tm = "mk_datetime 2024 2 1 10 0 0 0"
  have vw: "valid_datetime ?tw" and vm: "valid_datetime ?tm" by code_simp+
  have rw: "store_in_range weekly_only_store" and rm: "store_in_range monthly_only_store"
    by code_simp+
  have cd: "daily_due ?td scenario_store1" "\<not> weekly_due ?td scenario_store1"
    "\<not> monthly_due ?td scenario_store1" by code_simp+
  have cw: "\<not> daily_due ?tw weekly_only_store" "weekly_due ?tw weekly_only_store"
    "\<not> monthly_due ?tw weekly_only_store" by code_simp+
  have cm: "\<not> daily_due ?tm monthly_only_store" "\<not> weekly_due ?tm monthly_only_store"
    "monthly_due ?tm monthly_only_store" by code_simp+
  have sd: "get_period_start ''daily'' ?td = Inr (mk_datetime 2024 1 16 0 0 0 0)"
    and sw: "get_period_start ''weekly'' ?tw = Inr (mk_datetime 2024 1 22 0 0 0 0)"
    and sm: "get_period_start ''monthly'' ?tm = Inr (mk_datetime 2024 2 1 0 0 0 0)"
    by code_simp+
  have a: "reset_if_needed ?td scenario_store1 =
       (None, scenario_store1\<lparr>last_reset_daily := mk_datetime 2024 1 16 0 0 0 0,
          daily_requests := 0,
          models := (\<lambda>k. map_option (rolled_stats True False False) (models scenario_store1 k))\<rparr>)"
    using reset_if_needed_window_isolation[OF example_now_valid scenario_store1_in_range] cd sd
    by auto
  have b: "reset_if_needed ?tw weekly_only_store =
       (None, weekly_only_store\<lparr>last_reset_weekly := mk_datetime 2024 1 22 0 0 0 0,
          weekly_requests := 0,
          models := (\<lambda>k. map_option (rolled_stats False True False) (models weekly_only_store k))\<rparr>)"
    using reset_if_needed_window_isolation[OF vw rw] cw sw by auto
  have c: "reset_if_needed ?tm monthly_only_store =
       (None, monthly_only_store\<lparr>last_reset_monthly := mk_datetime 2024 2 1 0 0 0 0,
          monthly_requests := 0,
          models := (\<lambda>k. map_option (rolled_stats False False True) (models monthly_only_store k))\<rparr>)"
    using reset_if_needed_window_isolation[OF vm rm] cm sm by auto
  show ?thesis
    using example_now_valid scenario_store1_in_range vw vm rw rm cd cw cm a b c by blast
qed

subsection \<open>The month index alone\<close>

text \<open>
  C9. The monthly check compares month numbers only. When \<open>now\<close> lies in the month with
  the same number as \<open>last_reset_monthly\<close> but in a later year, the rollover check keeps
  \<open>monthly_requests\<close>, \<open>last_reset_monthly\<close> and the monthly token fields of every model
  entry, although the start of \<open>now\<close>'s month is strictly later than the stored stamp.
\<close>

theorem reset_if_needed_same_month_later_year:
  assumes "valid_datetime now" and "store_in_range ud"
    and "month now = month (last_reset_monthly ud)"
    and "year (last_reset_monthly ud) < year now"
  shows "\<exists>ud' sm.
           reset_if_needed now ud = (None, ud') \<and>
           monthly_requests ud' = monthly_requests ud \<and>
           last_reset_monthly ud' = last_reset_monthly ud \<and>
           (\<forall>k st. models ud k = Some st \<longrightarrow>
              (\<exists>st'. models ud' k = Some st'
                 \<and> monthly_input_tokens st' = monthly_input_tokens st
                 \<and> monthly_output_tokens st' = monthly_output_tokens st
                 \<and> monthly_total_tokens st' = monthly_total_tokens st)) \<and>
           get_period_start ''monthly'' now = Inr sm \<and>
           \<not> dt_ge (last_reset_monthly ud) sm \<and>
           instant (last_reset_monthly ud) < instant sm"
proof -
  have nm: "\<not> monthly_due now ud" using assms(3) by (simp add: monthly_due_def)
  from reset_if_needed_closed[OF assms(1,2)] obtain sd sw sm where
    s: "get_period_start ''monthly'' now = Inr sm"
    and r: "reset_if_needed now ud =
             (None,
              ud\<lparr>last_reset_daily := (if daily_due now ud then sd else last_reset_daily ud),
                 daily_requests := (if daily_due now ud then 0 else daily_requests ud),
                 last_reset_weekly := (if weekly_due now ud then sw else last_reset_weekly ud),
                 weekly_requests := (if weekly_due now ud then 0 else weekly_requests ud),
                 last_reset_monthly := (if monthly_due now ud then sm else last_reset_monthly ud),
                 monthly_requests := (if monthly_due now ud then 0 else monthly_requests ud),
                 models := (\<lambda>k. map_option
                    (rolled_stats (daily_due now ud) (weekly_due now ud) (monthly_due now ud))
                    (models ud k))\<rparr>)"
    by blast
  from monthly_start_ok[OF assms(1)] s
  have sm: "sm = now\<lparr>day := 1, hour := 0, minute := 0, second := 0, microsecond := 0\<rparr>"
    "valid_datetime sm" by auto
  have vl: "valid_datetime (last_reset_monthly ud)"
    using assms(2) by (simp add: store_in_range_def)
  have c: "\<not> dt_ge (last_reset_monthly ud) sm"
    using assms(4) by (simp add: dt_ge_def dt_cmp_def dt_tuple_def sm(1))
  then have "instant (last_reset_monthly ud) < instant sm"
    using dt_ge_instant[OF vl sm(2)] by simp
  then show ?thesis
    unfolding r using s c nm by (simp add: rolled_stats_def)
qed

theorem reset_if_needed_same_month_later_year_witness:
  "valid_datetime (mk_datetime 2024 1 5 9 0 0 0) \<and> store_in_range year_old_store
   \<and> month (mk_datetime 2024 1 5 9 0 0 0) = month (last_reset_monthly year_old_store)
   \<and> year (last_reset_monthly year_old_store) < year (mk_datetime 2024 1 5 9 0 0 0)
   \<and> (\<exists>ud' st'. reset_if_needed (mk_datetime 2024 1 5 9 0 0 0) year_old_store = (None, ud')
         \<and> monthly_requests ud' = 6
         \<and> last_reset_monthly ud' = mk_datetime 2023 1 1 0 0 0 0
         \<and> models ud' ''model-x'' = Some st' \<and> monthly_input_tokens st' = 10
         \<and> monthly_output_tokens st' = 5 \<and> monthly_total_tokens st' = 15)
   \<and> get_period_start ''monthly'' (mk_datetime 2024 1 5 9 0 0 0)
        = Inr (mk_datetime 2024 1 1 0 0 0 0)
   \<and> instant (mk_datetime 2023 1 1 0 0 0 0) < instant (mk_datetime 2024 1 1 0 0 0 0)"
proof -
  let ?now = "mk_datetime 2024 1 5 9 0 0 0"
  have v: "valid_datetime ?now" and r: "store_in_range year_old_store"
    and m: "month ?now = month (last_reset_monthly year_old_store)"
    and y: "year (last_reset_monthly year_old_store) < year ?now"
    and g: "get_period_start ''monthly'' ?now = Inr (mk_datetime 2024 1 1 0 0 0 0)"
    by code_simp+
  have f: "monthly_requests year_old_store = 6"
    "last_reset_monthly year_old_store = mk_datetime 2023 1 1 0 0 0 0"
    "models year_old_store ''model-x'' = Some example_stats"
    "monthly_input_tokens example_stats = 10" "monthly_output_tokens example_stats = 5"
    "monthly_total_tokens example_stats = 15"
    by (simp_all add: year_old_store_def example_stats_def)
  from reset_if_needed_same_month_later_year[OF v r m y] obtain ud' sm where
    a: "reset_if_needed ?now year_old_store = (None, ud')"
       "monthly_requests ud' = monthly_requests year_old_store"
       "last_reset_monthly ud' = last_reset_monthly year_old_store"
       "\<forall>k st. models year_old_store k = Some st \<longrightarrow>
              (\<exists>st'. models ud' k = Some st'
                 \<and> monthly_input_tokens st' = monthly_input_tokens st
                 \<and> monthly_output_tokens st' = monthly_output_tokens st
                 \<and> monthly_total_tokens st' = monthly_total_tokens st)"
       "get_period_start ''monthly'' ?now = Inr sm"
       "instant (last_reset_monthly year_old_store) < instant sm"
    by blast
  from a(4) f(3) obtain st' where
    st: "models ud' ''model-x'' = Some st'" "monthly_input_tokens st' = 10"
      "monthly_output_tokens st' = 5" "monthly_total_tokens st' = 15"
    using f(4-6) by force
  have "sm = mk_datetime 2024 1 1 0 0 0 0" using a(5) g by simp
  then have "instant (mk_datetime 2023 1 1 0 0 0 0) < instant (mk_datetime 2024 1 1 0 0 0 0)"
    using a(6) f(2) by simp
  then show ?thesis using v r m y g a(1-3) st f(1,2) by auto
qed

subsection \<open>Forty days without a check\<close>

text \<open>
  C3. Let the last rollover check have run at \<open>t0\<close>, on a store in range whose daily and
  weekly stamps were not later than \<open>t0\<close>, and let \<open>now\<close> be \<open>t0 + 40 days\<close>. Then one run
  of the check at \<open>now\<close> returns, all three reset conditions hold, and the run sets
  \<open>last_reset_daily\<close>, \<open>last_reset_weekly\<close> and \<open>last_reset_monthly\<close> to the daily, weekly and
  monthly period start of \<open>now\<close> itself, sets the three request counters to 0 and sets
  the nine periodic token fields of every model entry to 0, keeping \<open>total_requests\<close> and
  the lifetime token fields.
\<close>

theorem reset_if_needed_after_40_days:
  assumes "valid_datetime t0" and "store_in_range ud0"
    and "dt_ge t0 (last_reset_daily ud0)" and "dt_ge t0 (last_reset_weekly ud0)"
    and "reset_if_needed t0 ud0 = (None, ud)"
    and "add_days t0 40 = Inr now"
  shows "\<exists>ud' sd sw sm.
           reset_if_needed now ud = (None, ud') \<and>
           get_period_start ''daily'' now = Inr sd \<and>
           get_period_start ''weekly'' now = Inr sw \<and>
           get_period_start ''monthly'' now = Inr sm \<and>
           daily_due now ud \<and> weekly_due now ud \<and> monthly_due now ud \<and>
           last_reset_daily ud' = sd \<and> daily_requests ud' = 0 \<and>
           last_reset_weekly ud' = sw \<and> weekly_requests ud' = 0 \<and>
           last_reset_monthly ud' = sm \<and> monthly_requests ud' = 0 \<and>
           total_requests ud' = total_requests ud \<and>
           (\<forall>k. models ud' k = map_option (rolled_stats True True True) (models ud k))"
proof -
  have v0: "valid_datetime (last_reset_daily ud0)" "valid_datetime (last_reset_weekly ud0)"
    using assms(2) by (simp_all add: store_in_range_def)
  have b: "0 < toordinal t0 + 40" "toordinal t0 + 40 \<le> MAXORDINAL"
    using assms(6) by (auto simp: add_days_def Let_def split: if_splits)
  from add_days_ok[OF assms(1) b] assms(6)
  have n: "valid_datetime now" "toordinal now = toordinal t0 + 40"
    "instant now = instant t0 + 40 * DAY" by auto
  have b7: "toordinal t0 + 7 \<le> MAXORDINAL" using b(2) by simp
  from reset_if_needed_settles[OF assms(1,2) b7 assms(5)]
  have r: "store_in_range ud" and nm: "\<not> monthly_due t0 ud" by simp_all
  from daily_start_ok[OF assms(1)] obtain sd0 where
    sd0: "get_period_start ''daily'' t0 = Inr sd0" "instant sd0 \<le> instant t0" by blast
  from weekly_start_ok[OF assms(1)] obtain sw0 where
    sw0: "get_period_start ''weekly'' t0 = Inr sw0" "instant sw0 \<le> instant t0" by blast
  from reset_if_needed_closed[OF assms(1,2)] assms(5) sd0(1) sw0(1)
  have f: "last_reset_daily ud = (if daily_due t0 ud0 then sd0 else last_reset_daily ud0)"
    "last_reset_weekly ud = (if weekly_due t0 ud0 then sw0 else last_reset_weekly ud0)"
    by auto
  have "instant (last_reset_daily ud0) \<le> instant t0"
    using dt_ge_instant[OF assms(1) v0(1)] assms(3) by simp
  then have ld: "instant (last_reset_daily ud) \<le> instant t0" using sd0(2) by (simp add: f)
  have "instant (last_reset_weekly ud0) \<le> instant t0"
    using dt_ge_instant[OF assms(1) v0(2)] assms(4) by simp
  then have lw: "instant (last_reset_weekly ud) \<le> instant t0" using sw0(2) by (simp add: f)
  have D: "daily_due now ud"
    using due_instants(1)[OF n(1) r] ld n(3) by (simp add: DAY_def)
  have W: "weekly_due now ud"
    using due_instants(2)[OF n(1) r] lw n(3) by (simp add: DAY_def)
  have "month now \<noteq> month t0"
    by (rule month_changes_after_40_days[OF assms(1) n(1,2)])
  then have M: "monthly_due now ud" using nm by (simp add: monthly_due_def)
  from reset_if_needed_closed[OF n(1) r] show ?thesis
    unfolding D W M by (auto simp: D W M)
qed

lemma forty_days_later:
  "add_days (mk_datetime 2024 1 15 10 5 0 0) 40 = Inr (mk_datetime 2024 2 24 10 5 0 0)"
  by code_simp

theorem reset_if_needed_after_40_days_witness:
  "valid_datetime (mk_datetime 2024 1 15 10 5 0 0) \<and> store_in_range scenario_store1
   \<and> dt_ge (mk_datetime 2024 1 15 10 5 0 0) (last_reset_daily scenario_store1)
   \<and> dt_ge (mk_datetime 2024 1 15 10 5 0 0) (last_reset_weekly scenario_store1)
   \<and> reset_if_needed (mk_datetime 2024 1 15 10 5 0 0) scenario_store1 = (None, scenario_store1)
   \<and> add_days (mk_datetime 2024 1 15 10 5 0 0) 40 = Inr (mk_datetime 2024 2 24 10 5 0 0)
   \<and> (\<exists>ud'. reset_if_needed (mk_datetime 2024 2 24 10 5 0 0) scenario_store1 = (None, ud')
         \<and> last_reset_daily ud' = mk_datetime 2024 2 24 0 0 0 0 \<and> daily_requests ud' = 0
         \<and> last_reset_weekly ud' = mk_datetime 2024 2 19 0 0 0 0 \<and> weekly_requests ud' = 0
         \<and> last_reset_monthly ud' = mk_datetime 2024 2 1 0 0 0 0 \<and> monthly_requests ud' = 0
         \<and> total_requests ud' = 1
         \<and> models ud' ''model-x'' = Some (rolled_stats True True True example_stats))"
proof -
  let ?t0 = "mk_datetime 2024 1 15 10 5 0 0"
  let ?now = "mk_datetime 2024 2 24 10 5 0 0"
  have v: "valid_datetime ?t0" by code_simp
  have g: "dt_ge ?t0 (last_reset_daily scenario_store1)"
    "dt_ge ?t0 (last_reset_weekly scenario_store1)" by code_simp+
  have n: "\<not> daily_due ?t0 scenario_store1" "\<not> weekly_due ?t0 scenario_store1"
    "\<not> monthly_due ?t0 scenario_store1" by code_simp+
  have r0: "reset_if_needed ?t0 scenario_store1 = (None, scenario_store1)"
    by (rule reset_if_needed_noop[OF v scenario_store1_in_range n])
  have s: "get_period_start ''daily'' ?now = Inr (mk_datetime 2024 2 24 0 0 0 0)"
    "get_period_start ''weekly'' ?now = Inr (mk_datetime 2024 2 19 0 0 0 0)"
    "get_period_start ''monthly'' ?now = Inr (mk_datetime 2024 2 1 0 0 0 0)"
    by code_simp+
  have f: "total_requests scenario_store1 = 1"
    "models scenario_store1 ''model-x'' = Some example_stats"
    by (simp_all add: scenario_store1_def)
  from reset_if_needed_after_40_days[OF v scenario_store1_in_range g r0 forty_days_later]
  have "\<exists>ud'. reset_if_needed ?now scenario_store1 = (None, ud')
         \<and> last_reset_daily ud' = mk_datetime 2024 2 24 0 0 0 0 \<and> daily_requests ud' = 0
         \<and> last_reset_weekly ud' = mk_datetime 2024 2 19 0 0 0 0 \<and> weekly_requests ud' = 0
         \<and> last_reset_monthly ud' = mk_datetime 2024 2 1 0 0 0 0 \<and> monthly_requests ud' = 0
         \<and> total_requests ud' = 1
         \<and> models ud' ''model-x'' = Some (rolled_stats True True True example_stats)"
    unfolding s by (auto simp: f)
  then show ?thesis using v scenario_store1_in_range g r0 forty_days_later by blast
qed

subsection \<open>Lifetime counters\<close>

lemma lifetime_kept_refl: "lifetime_kept a a"
  by (simp add: lifetime_kept_def)

lemma lifetime_kept_trans: "lifetime_kept a b \<Longrightarrow> lifetime_kept b c \<Longrightarrow> lifetime_kept a c"
  by (simp add: lifetime_kept_def)

lemma lifetime_kept_for_values:
  assumes "\<And>st. input_tokens (f st) = input_tokens st"
    "\<And>st. output_tokens (f st) = output_tokens st"
    "\<And>st. total_tokens (f st) = total_tokens st"
    and "total_requests b = total_requests a" "models b = for_values f (models a)"
  shows "lifetime_kept a b"
proof -
  have "dom (for_values f (models a)) = dom (models a)"
    by (auto simp: for_values_def dom_def)
  moreover have "lifetime_input b m = lifetime_input a m \<and> lifetime_output b m = lifetime_output a m
          \<and> lifetime_total b m = lifetime_total a m" for m
    using assms(1-3)
    by (cases "models a m")
       (simp_all add: lifetime_input_def lifetime_output_def lifetime_total_def assms(5)
          for_values_def)
  ultimately show ?thesis using assms(4,5) by (simp add: lifetime_kept_def)
qed

lemma check_daily_reset_lifetime:
  "check_daily_reset now ud = Inr ud1 \<Longrightarrow> lifetime_kept ud ud1"
  by (auto simp: check_daily_reset_def zero_daily_def lifetime_kept_refl
      split: sum.splits if_splits intro!: lifetime_kept_for_values[where f = zero_daily])

lemma check_weekly_reset_lifetime:
  "check_weekly_reset now ud = Inr ud1 \<Longrightarrow> lifetime_kept ud ud1"
  by (auto simp: check_weekly_reset_def zero_weekly_def lifetime_kept_refl
      split: sum.splits if_splits intro!: lifetime_kept_for_values[where f = zero_weekly])

lemma check_monthly_reset_lifetime:
  "check_monthly_reset now ud = Inr ud1 \<Longrightarrow> lifetime_kept ud ud1"
  by (auto simp: check_monthly_reset_def zero_monthly_def lifetime_kept_refl
      split: sum.splits if_splits intro!: lifetime_kept_for_values[where f = zero_monthly])

lemma reset_if_needed_lifetime: "lifetime_kept ud (snd (reset_if_needed now ud))"
proof (cases "check_daily_reset now ud")
  case (Inl e)
  then show ?thesis by (simp add: reset_if_needed_def lifetime_kept_refl)
next
  case d: (Inr ud1)
  note k1 = check_daily_reset_lifetime[OF d]
  show ?thesis
  proof (cases "check_weekly_reset now ud1")
    case (Inl e)
    then show ?thesis using d k1 by (simp add: reset_if_needed_def)
  next
    case w: (Inr ud2)
    note k2 = lifetime_kept_trans[OF k1 check_weekly_reset_lifetime[OF w]]
    show ?thesis
    proof (cases "check_monthly_reset now ud2")
      case (Inl e)
      then show ?thesis using d w k2 by (simp add: reset_if_needed_def)
    next
      case m: (Inr ud3)
      from lifetime_kept_trans[OF k2 check_monthly_reset_lifetime[OF m]]
      show ?thesis using d w m by (simp add: reset_if_needed_def)
    qed
  qed
qed

lemma lifetime_kept_grows: "lifetime_kept a b \<Longrightarrow> lifetime_grows a b"
  by (simp add: lifetime_kept_def lifetime_grows_def)

lemma recorded_lifetime:
  fixes ud1 :: usage_data
  defines "ud2 \<equiv> (\<lambda>ud1 m i out t.
              ud1\<lparr>total_requests := total_requests ud1 + 1,
                  daily_requests := daily_requests ud1 + 1,
                  weekly_requests := weekly_requests ud1 + 1,
                  monthly_requests := monthly_requests ud1 + 1,
                  models := (models ud1)(m \<mapsto>
                     add_tokens i out t
                       (case models ud1 m of None \<Rightarrow> default_factory | Some st \<Rightarrow> st))\<rparr>)"
  shows "total_requests (ud2 ud1 m i out t) = total_requests ud1 + 1"
    and "dom (models (ud2 ud1 m i out t)) = insert m (dom (models ud1))"
    and "lifetime_input (ud2 ud1 m i out t) k = lifetime_input ud1 k + (if k = m then i else 0)"
    and "lifetime_output (ud2 ud1 m i out t) k = lifetime_output ud1 k + (if k = m then out else 0)"
    and "lifetime_total (ud2 ud1 m i out t) k = lifetime_total ud1 k + (if k = m then t else 0)"
  unfolding ud2_def
  by (cases "models ud1 m";
      simp add: lifetime_input_def lifetime_output_def lifetime_total_def add_tokens_def
        default_factory_def)+

lemma update_usage_stats_eq:
  assumes "usage_metadata result = Some usage" "reset_if_needed now ud = (None, ud1)"
  shows "update_usage_stats now m result ud =
           (None,
              ud1\<lparr>total_requests := total_requests ud1 + 1,
                  daily_requests := daily_requests ud1 + 1,
                  weekly_requests := weekly_requests ud1 + 1,
                  monthly_requests := monthly_requests ud1 + 1,
                  models := (models ud1)(m \<mapsto>
                     add_tokens (reported_input result) (reported_output result)
                       (reported_total result)
                       (case models ud1 m of None \<Rightarrow> default_factory | Some st \<Rightarrow> st))\<rparr>)"
  unfolding update_usage_stats_def assms reported_input_def reported_output_def
    reported_total_def
  by (cases "models ud1 m") (simp_all add: Let_def models_getitem_def)

lemma update_usage_stats_lifetime:
  assumes "0 \<le> reported_input result" "0 \<le> reported_output result" "0 \<le> reported_total result"
  shows "lifetime_grows ud (snd (update_usage_stats now m result ud))"
proof (cases "usage_metadata result")
  case None
  then show ?thesis by (simp add: update_usage_stats_def lifetime_grows_def)
next
  case (Some usage)
  obtain e ud1 where r: "reset_if_needed now ud = (e, ud1)" by (cases "reset_if_needed now ud")
  have k: "lifetime_kept ud ud1" using reset_if_needed_lifetime[of ud now] r by simp
  show ?thesis
  proof (cases e)
    case (Some err)
    then show ?thesis
      using r k \<open>usage_metadata result = Some usage\<close>
      by (simp add: update_usage_stats_def lifetime_kept_grows)
  next
    case None
    with r have r': "reset_if_needed now ud = (None, ud1)" by simp
    define ud2 where "ud2 = snd (update_usage_stats now m result ud)"
    note e = update_usage_stats_eq[OF \<open>usage_metadata result = Some usage\<close> r', of m]
    have l: "total_requests ud2 = total_requests ud1 + 1"
      "dom (models ud2) = insert m (dom (models ud1))"
      "\<And>k. lifetime_input ud2 k = lifetime_input ud1 k + (if k = m then reported_input result else 0)"
      "\<And>k. lifetime_output ud2 k = lifetime_output ud1 k + (if k = m then reported_output result else 0)"
      "\<And>k. lifetime_total ud2 k = lifetime_total ud1 k + (if k = m then reported_total result else 0)"
      unfolding ud2_def e snd_conv by (rule recorded_lifetime)+
    show ?thesis
      unfolding ud2_def[symmetric] using k assms
      by (auto simp: lifetime_grows_def lifetime_kept_def l)
  qed
qed

lemma update_usage_stats_step:
  assumes "valid_datetime now" "store_in_range ud" "toordinal now + 7 \<le> MAXORDINAL"
    and "usage_metadata result \<noteq> None"
  shows "\<exists>ud2. update_usage_stats now m result ud = (None, ud2) \<and> store_in_range ud2
           \<and> total_requests ud2 = total_requests ud + 1
           \<and> dom (models ud2) = insert m (dom (models ud))
           \<and> (\<forall>k. lifetime_input ud2 k = lifetime_input ud k + (if k = m then reported_input result else 0)
                \<and> lifetime_output ud2 k = lifetime_output ud k + (if k = m then reported_output result else 0)
                \<and> lifetime_total ud2 k = lifetime_total ud k + (if k = m then reported_total result else 0))"
proof -
  from assms(4) obtain usage where u: "usage_metadata result = Some usage" by auto
  from reset_if_needed_closed[OF assms(1,2)] obtain ud1 where
    r: "reset_if_needed now ud = (None, ud1)" by blast
  have k: "lifetime_kept ud ud1" using reset_if_needed_lifetime[of ud now] r by simp
  have s: "store_in_range ud1" using reset_if_needed_settles[OF assms(1-3) r] by simp
  define ud2 where "ud2 = snd (update_usage_stats now m result ud)"
  note e = update_usage_stats_eq[OF u r, of m]
  have l: "total_requests ud2 = total_requests ud1 + 1"
    "dom (models ud2) = insert m (dom (models ud1))"
    "\<And>k. lifetime_input ud2 k = lifetime_input ud1 k + (if k = m then reported_input result else 0)"
    "\<And>k. lifetime_output ud2 k = lifetime_output ud1 k + (if k = m then reported_output result else 0)"
    "\<And>k. lifetime_total ud2 k = lifetime_total ud1 k + (if k = m then reported_total result else 0)"
    unfolding ud2_def e snd_conv by (rule recorded_lifetime)+
  have "store_in_range ud2"
    using s unfolding ud2_def e snd_conv by (simp add: store_in_range_def)
  moreover have "update_usage_stats now m result ud = (None, ud2)"
    unfolding ud2_def e by simp
  ultimately show ?thesis
    using k by (auto simp: lifetime_kept_def l)
qed

lemma update_usage_stats_all_lifetime:
  assumes "store_in_range ud"
    and "\<forall>(t, m, r) \<in> set calls.
           valid_datetime t \<and> toordinal t + 7 \<le> MAXORDINAL \<and> usage_metadata r \<noteq> None"
  shows "\<exists>ud'. update_usage_stats_all calls ud = (None, ud') \<and> store_in_range ud'
           \<and> total_requests ud' = total_requests ud + int (length calls)
           \<and> dom (models ud') = dom (models ud) \<union> {m. \<exists>t r. (t, m, r) \<in> set calls}
           \<and> (\<forall>k. lifetime_input ud' k = lifetime_input ud k
                       + sum_list (map (\<lambda>(t, m, r). if m = k then reported_input r else 0) calls)
                \<and> lifetime_output ud' k = lifetime_output ud k
                       + sum_list (map (\<lambda>(t, m, r). if m = k then reported_output r else 0) calls)
                \<and> lifetime_total ud' k = lifetime_total ud k
                       + sum_list (map (\<lambda>(t, m, r). if m = k then reported_total r else 0) calls))"
  using assms
proof (induction calls arbitrary: ud)
  case Nil
  then show ?case by simp
next
  case (Cons c calls)
  obtain t m r where c: "c = (t, m, r)" by (cases c)
  from Cons.prems(2) c have h: "valid_datetime t" "toordinal t + 7 \<le> MAXORDINAL"
    "usage_metadata r \<noteq> None"
    and rest: "\<forall>(t, m, r) \<in> set calls.
           valid_datetime t \<and> toordinal t + 7 \<le> MAXORDINAL \<and> usage_metadata r \<noteq> None"
    by simp_all
  from update_usage_stats_step[OF h(1) Cons.prems(1) h(2,3), of m] obtain ud1 where
    s: "update_usage_stats t m r ud = (None, ud1)" "store_in_range ud1"
       "total_requests ud1 = total_requests ud + 1"
       "dom (models ud1) = insert m (dom (models ud))"
       "\<And>k. lifetime_input ud1 k = lifetime_input ud k + (if k = m then reported_input r else 0)"
       "\<And>k. lifetime_output ud1 k = lifetime_output ud k + (if k = m then reported_output r else 0)"
       "\<And>k. lifetime_total ud1 k = lifetime_total ud k + (if k = m then reported_total r else 0)"
    by blast
  from Cons.IH[OF s(2) rest] obtain ud' where
    i: "update_usage_stats_all calls ud1 = (None, ud')" "store_in_range ud'"
       "total_requests ud' = total_requests ud1 + int (length calls)"
       "dom (models ud') = dom (models ud1) \<union> {m. \<exists>t r. (t, m, r) \<in> set calls}"
       "\<And>k. lifetime_input ud' k = lifetime_input ud1 k
                       + sum_list (map (\<lambda>(t, m, r). if m = k then reported_input r else 0) calls)"
       "\<And>k. lifetime_output ud' k = lifetime_output ud1 k
                       + sum_list (map (\<lambda>(t, m, r). if m = k then reported_output r else 0) calls)"
       "\<And>k. lifetime_total ud' k = lifetime_total ud1 k
                       + sum_list (map (\<lambda>(t, m, r). if m = k then reported_total r else 0) calls)"
    by blast
  have "update_usage_stats_all (c # calls) ud = (None, ud')"
    by (simp add: c s(1) i(1))
  moreover have "dom (models ud') = dom (models ud) \<union> {m. \<exists>t r. (t, m, r) \<in> set (c # calls)}"
    unfolding i(4) s(4) c by auto
  ultimately show ?case
    using i(2) by (auto simp: i(3,5,6,7) s(3,5,6,7) c)
qed

lemma init_fresh:
  assumes "init t0 = Inr ud0"
  shows "total_requests ud0 = 0 \<and> models ud0 = Map.empty"
  using assms by (auto simp: init_def split: sum.splits)

text \<open>
  C6. The rollover check and the scheduled refresh keep \<open>total_requests\<close>, the key set and
  every model's lifetime \<open>input_tokens\<close>, \<open>output_tokens\<close> and \<open>total_tokens\<close>, whatever the
  store and the instant, also when the date arithmetic raises. A report with non-negative
  counts never decreases any of them. A store built by \<open>__init__\<close> has \<open>total_requests = 0\<close>
  and no model entry. Every finite run of reports with usage metadata (valid instants
  up to 9999-12-24, on a store in range) returns without raising, adds the number of
  reports to \<open>total_requests\<close>, adds as keys exactly the reported models, and adds to each
  model's lifetime token fields the sums of the counts reported for that model.
\<close>

theorem lifetime_counters_accumulate:
  "lifetime_kept ud (snd (reset_if_needed now ud))
   \<and> lifetime_kept ud (snd (async_update_data now ud))
   \<and> (0 \<le> reported_input result \<and> 0 \<le> reported_output result \<and> 0 \<le> reported_total result
        \<longrightarrow> lifetime_grows ud (snd (update_usage_stats now model_name result ud)))
   \<and> (init t0 = Inr ud0 \<longrightarrow> total_requests ud0 = 0 \<and> models ud0 = Map.empty)
   \<and> (store_in_range ud
        \<and> (\<forall>(t, m, r) \<in> set calls.
              valid_datetime t \<and> toordinal t + 7 \<le> MAXORDINAL \<and> usage_metadata r \<noteq> None)
        \<longrightarrow> (\<exists>ud'. update_usage_stats_all calls ud = (None, ud')
               \<and> total_requests ud' = total_requests ud + int (length calls)
               \<and> dom (models ud') = dom (models ud) \<union> {m. \<exists>t r. (t, m, r) \<in> set calls}
               \<and> (\<forall>k. lifetime_input ud' k = lifetime_input ud k
                       + sum_list (map (\<lambda>(t, m, r). if m = k then reported_input r else 0) calls)
                    \<and> lifetime_output ud' k = lifetime_output ud k
                       + sum_list (map (\<lambda>(t, m, r). if m = k then reported_output r else 0) calls)
                    \<and> lifetime_total ud' k = lifetime_total ud k
                       + sum_list (map (\<lambda>(t, m, r). if m = k then reported_total r else 0) calls))))"
proof (intro conjI impI)
  show "lifetime_kept ud (snd (reset_if_needed now ud))" by (rule reset_if_needed_lifetime)
  show "lifetime_kept ud (snd (async_update_data now ud))"
    unfolding async_update_data_def by (rule reset_if_needed_lifetime)
  show "lifetime_grows ud (snd (update_usage_stats now model_name result ud))"
    if "0 \<le> reported_input result \<and> 0 \<le> reported_output result \<and> 0 \<le> reported_total result"
    using that by (intro update_usage_stats_lifetime) simp_all
  show "total_requests ud0 = 0" "models ud0 = Map.empty" if "init t0 = Inr ud0"
    using init_fresh[OF that] by simp_all
  show "\<exists>ud'. update_usage_stats_all calls ud = (None, ud')
               \<and> total_requests ud' = total_requests ud + int (length calls)
               \<and> dom (models ud') = dom (models ud) \<union> {m. \<exists>t r. (t, m, r) \<in> set calls}
               \<and> (\<forall>k. lifetime_input ud' k = lifetime_input ud k
                       + sum_list (map (\<lambda>(t, m, r). if m = k then reported_input r else 0) calls)
                    \<and> lifetime_output ud' k = lifetime_output ud k
                       + sum_list (map (\<lambda>(t, m, r). if m = k then reported_output r else 0) calls)
                    \<and> lifetime_total ud' k = lifetime_total ud k
                       + sum_list (map (\<lambda>(t, m, r). if m = k then reported_total r else 0) calls))"
    if "store_in_range ud
        \<and> (\<forall>(t, m, r) \<in> set calls.
              valid_datetime t \<and> toordinal t + 7 \<le> MAXORDINAL \<and> usage_metadata r \<noteq> None)"
    using update_usage_stats_all_lifetime[of ud calls] that by blast
qed

lemma scenario_calls_ok:
  "\<forall>(t, m, r) \<in> set scenario_calls.
     valid_datetime t \<and> toordinal t + 7 \<le> MAXORDINAL \<and> usage_metadata r \<noteq> None"
proof -
  have "valid_datetime (mk_datetime 2024 1 15 10 5 0 0)"
    "toordinal (mk_datetime 2024 1 15 10 5 0 0) + 7 \<le> MAXORDINAL"
    by code_simp+
  then show ?thesis
    using example_now_valid example_now_in_range by (simp add: scenario_calls_def mk_result_def)
qed

theorem lifetime_counters_accumulate_witness:
  "0 \<le> reported_input (mk_result 1 1 2) \<and> 0 \<le> reported_output (mk_result 1 1 2)
   \<and> 0 \<le> reported_total (mk_result 1 1 2)
   \<and> lifetime_grows scenario_store1 scenario_store2
   \<and> lifetime_input scenario_store1 ''model-x'' = 10
   \<and> lifetime_input scenario_store2 ''model-x'' = 11
   \<and> lifetime_kept scenario_store1
        (snd (reset_if_needed (mk_datetime 2024 1 16 10 0 0 0) scenario_store1))
   \<and> init (mk_datetime 2024 1 15 10 0 0 0) = Inr scenario_store0
   \<and> total_requests scenario_store0 = 0 \<and> models scenario_store0 = Map.empty
   \<and> store_in_range scenario_store0
   \<and> valid_datetime (mk_datetime 2024 1 15 10 5 0 0)
   \<and> toordinal (mk_datetime 2024 1 15 10 5 0 0) + 7 \<le> MAXORDINAL
   \<and> usage_metadata (mk_result 10 5 15) \<noteq> None
   \<and> valid_datetime (mk_datetime 2024 1 16 10 0 0 0)
   \<and> toordinal (mk_datetime 2024 1 16 10 0 0 0) + 7 \<le> MAXORDINAL
   \<and> usage_metadata (mk_result 1 1 2) \<noteq> None
   \<and> update_usage_stats_all scenario_calls scenario_store0 = (None, scenario_store2)
   \<and> total_requests scenario_store2 = 2
   \<and> lifetime_input scenario_store2 ''model-x'' = 0 + (10 + 1)
   \<and> lifetime_output scenario_store2 ''model-x'' = 0 + (5 + 1)
   \<and> lifetime_total scenario_store2 ''model-x'' = 0 + (15 + 2)"
proof -
  let ?t2 = "mk_datetime 2024 1 16 10 0 0 0"
  note inst = lifetime_counters_accumulate[of scenario_store1 ?t2 "mk_result 1 1 2" "''model-x''"
      "mk_datetime 2024 1 15 10 0 0 0" scenario_store0 scenario_calls]
  have p: "0 \<le> reported_input (mk_result 1 1 2)" "0 \<le> reported_output (mk_result 1 1 2)"
    "0 \<le> reported_total (mk_result 1 1 2)"
    by (simp_all add: reported_input_def reported_output_def reported_total_def mk_result_def
        getattr_def)
  have g: "lifetime_grows scenario_store1 scenario_store2"
    using inst p by (simp add: scenario_call2)
  have k: "lifetime_kept scenario_store1 (snd (reset_if_needed ?t2 scenario_store1))"
    using inst by blast
  have i: "total_requests scenario_store0 = 0 \<and> models scenario_store0 = Map.empty"
    using inst scenario_init by blast
  have a: "update_usage_stats_all scenario_calls scenario_store0 = (None, scenario_store2)"
    by (simp add: scenario_calls_def scenario_call1 scenario_call2)
  have l: "lifetime_input scenario_store1 ''model-x'' = 10"
    "lifetime_input scenario_store2 ''model-x'' = 11"
    "lifetime_output scenario_store2 ''model-x'' = 6"
    "lifetime_total scenario_store2 ''model-x'' = 17"
    "total_requests scenario_store2 = 2"
    by (simp_all add: lifetime_input_def lifetime_output_def lifetime_total_def
        scenario_store1_def scenario_store2_def example_stats_def)
  from lifetime_counters_accumulate[of scenario_store0 ?t2 "mk_result 1 1 2" "''model-x''"
      "mk_datetime 2024 1 15 10 0 0 0" scenario_store0 scenario_calls]
    scenario_store0_in_range scenario_calls_ok obtain ud' where
    u: "update_usage_stats_all scenario_calls scenario_store0 = (None, ud')"
       "total_requests ud' = total_requests scenario_store0 + int (length scenario_calls)"
       "\<forall>k. lifetime_input ud' k = lifetime_input scenario_store0 k
                       + sum_list (map (\<lambda>(t, m, r). if m = k then reported_input r else 0)
                           scenario_calls)
            \<and> lifetime_output ud' k = lifetime_output scenario_store0 k
                       + sum_list (map (\<lambda>(t, m, r). if m = k then reported_output r else 0)
                           scenario_calls)
            \<and> lifetime_total ud' k = lifetime_total scenario_store0 k
                       + sum_list (map (\<lambda>(t, m, r). if m = k then reported_total r else 0)
                           scenario_calls)"
    by blast
  have e: "ud' = scenario_store2" using u(1) a by simp
  have z: "lifetime_input scenario_store0 ''model-x'' = 0"
    "lifetime_output scenario_store0 ''model-x'' = 0"
    "lifetime_total scenario_store0 ''model-x'' = 0"
    by (simp_all add: lifetime_input_def lifetime_output_def lifetime_total_def
        scenario_store0_def)
  have "total_requests scenario_store2 = 2"
    "lifetime_input scenario_store2 ''model-x'' = 0 + (10 + 1)"
    "lifetime_output scenario_store2 ''model-x'' = 0 + (5 + 1)"
    "lifetime_total scenario_store2 ''model-x'' = 0 + (15 + 2)"
    using u(2) u(3)[rule_format, of "''model-x''"] i unfolding e z
    by (simp_all add: scenario_calls_def reported_input_def reported_output_def
        reported_total_def mk_result_def getattr_def)
  moreover have "valid_datetime (mk_datetime 2024 1 15 10 5 0 0)"
    "toordinal (mk_datetime 2024 1 15 10 5 0 0) + 7 \<le> MAXORDINAL"
    "usage_metadata (mk_result 10 5 15) \<noteq> None"
    "usage_metadata (mk_result 1 1 2) \<noteq> None"
    using scenario_calls_ok by (simp_all add: scenario_calls_def)
  ultimately show ?thesis
    using p g k i a l(1,2) scenario_init scenario_store0_in_range example_now_valid
      example_now_in_range by simp
qed

subsection \<open>Keys and reads\<close>

lemma update_usage_stats_keys:
  "dom (models (snd (update_usage_stats now m result ud))) =
     (if usage_metadata result \<noteq> None \<and> fst (reset_if_needed now ud) = None
      then insert m (dom (models ud)) else dom (models ud))"
proof (cases "usage_metadata result")
  case None
  then show ?thesis by (simp add: update_usage_stats_def)
next
  case (Some usage)
  obtain e ud1 where r: "reset_if_needed now ud = (e, ud1)" by (cases "reset_if_needed now ud")
  have k: "dom (models ud1) = dom (models ud)"
    using reset_if_needed_lifetime[of ud now] r by (simp add: lifetime_kept_def)
  show ?thesis
  proof (cases e)
    case (Some err)
    then show ?thesis using r k \<open>usage_metadata result = Some usage\<close>
      by (simp add: update_usage_stats_def)
  next
    case None
    with r have r': "reset_if_needed now ud = (None, ud1)" by simp
    show ?thesis
      unfolding update_usage_stats_eq[OF \<open>usage_metadata result = Some usage\<close> r']
      using k r' \<open>usage_metadata result = Some usage\<close> by simp
  qed
qed

text \<open>
  A sensor is only built for a model that has an entry, and entries are never removed.
  Were a model sensor read for a model without entry, the \<open>defaultdict\<close> would store one.
\<close>

lemma model_token_read_of_absent_model:
  assumes "models ud m = None"
  shows "snd (model_token_native_value (Some ud) m key)
           = Some (ud\<lparr>models := (models ud)(m \<mapsto> default_factory)\<rparr>)"
  using assms by (simp add: model_token_native_value_def models_getitem_def)

text \<open>
  C8, as stated, fails for the scheduled refresh: \<open>_async_update_data\<close> runs the rollover
  check before it returns the store. Read one day after Scenario A's report, it sets
  \<open>daily_requests\<close> from 1 to 0.
\<close>

theorem snapshot_read_changes_store:
  "daily_requests scenario_store1 = 1
   \<and> daily_requests (snd (async_update_data (mk_datetime 2024 1 16 10 0 0 0) scenario_store1)) = 0
   \<and> snd (async_update_data (mk_datetime 2024 1 16 10 0 0 0) scenario_store1) \<noteq> scenario_store1"
proof -
  have a: "daily_requests scenario_store1 = 1" by (simp add: scenario_store1_def)
  have b: "daily_requests (snd (async_update_data (mk_datetime 2024 1 16 10 0 0 0)
      scenario_store1)) = 0"
    by (simp add: async_update_data_def scenario_reset2)
  from a b show ?thesis by auto
qed

text \<open>
  C8, amended. \<open>_async_update_data\<close> changes the store exactly as the rollover check does:
  it never changes the key set of \<open>models\<close> or a lifetime counter, and it leaves the store
  unchanged when no reset condition holds. A report without usage metadata leaves the
  store unchanged; a report for model \<open>m\<close> with usage metadata adds the key \<open>m\<close> and no
  other key (and no key at all when the rollover check raises). A model sensor's read
  for a model that has an entry, a read before the first refresh and a read of
  \<open>total_requests\<close> leave the store unchanged.
\<close>

theorem keys_added_only_by_reports:
  "async_update_data now ud = reset_if_needed now ud
   \<and> dom (models (snd (reset_if_needed now ud))) = dom (models ud)
   \<and> dom (models (snd (async_update_data now ud))) = dom (models ud)
   \<and> lifetime_kept ud (snd (async_update_data now ud))
   \<and> (valid_datetime now \<and> store_in_range ud
        \<and> \<not> daily_due now ud \<and> \<not> weekly_due now ud \<and> \<not> monthly_due now ud
        \<longrightarrow> async_update_data now ud = (None, ud))
   \<and> (usage_metadata result = None \<longrightarrow> update_usage_stats now m result ud = (None, ud))
   \<and> dom (models (snd (update_usage_stats now m result ud))) =
       (if usage_metadata result \<noteq> None \<and> fst (reset_if_needed now ud) = None
        then insert m (dom (models ud)) else dom (models ud))
   \<and> (valid_datetime now \<and> store_in_range ud \<and> usage_metadata result \<noteq> None
        \<longrightarrow> dom (models (snd (update_usage_stats now m result ud))) = insert m (dom (models ud)))
   \<and> (m \<in> dom (models ud) \<longrightarrow>
        snd (model_token_native_value (Some ud) m token_type_key) = Some ud
        \<and> snd (periodic_model_token_native_value (Some ud) m period_key token_type_key) = Some ud)
   \<and> snd (model_token_native_value None m token_type_key) = None
   \<and> snd (periodic_model_token_native_value None m period_key token_type_key) = None
   \<and> snd (total_calls_native_value data) = data"
proof -
  have k: "lifetime_kept ud (snd (reset_if_needed now ud))" by (rule reset_if_needed_lifetime)
  then have d: "dom (models (snd (reset_if_needed now ud))) = dom (models ud)"
    by (simp add: lifetime_kept_def)
  have n: "async_update_data now ud = (None, ud)"
    if "valid_datetime now \<and> store_in_range ud
        \<and> \<not> daily_due now ud \<and> \<not> weekly_due now ud \<and> \<not> monthly_due now ud"
    unfolding async_update_data_def using that by (intro reset_if_needed_noop) simp_all
  have u0: "update_usage_stats now m result ud = (None, ud)" if "usage_metadata result = None"
    using that by (simp add: update_usage_stats_def)
  have u1: "dom (models (snd (update_usage_stats now m result ud))) = insert m (dom (models ud))"
    if "valid_datetime now \<and> store_in_range ud \<and> usage_metadata result \<noteq> None"
  proof -
    from that reset_if_needed_closed[of now ud] have "fst (reset_if_needed now ud) = None"
      by auto
    then show ?thesis using that by (simp add: update_usage_stats_keys)
  qed
  have s: "snd (model_token_native_value (Some ud) m token_type_key) = Some ud
        \<and> snd (periodic_model_token_native_value (Some ud) m period_key token_type_key) = Some ud"
    if "m \<in> dom (models ud)"
    using that
    by (auto simp: model_token_native_value_def periodic_model_token_native_value_def
        models_getitem_def Let_def)
  have z: "snd (model_token_native_value None m token_type_key) = None"
    "snd (periodic_model_token_native_value None m period_key token_type_key) = None"
    "snd (total_calls_native_value data) = data"
    by (simp_all add: model_token_native_value_def periodic_model_token_native_value_def
        total_calls_native_value_def split: option.splits)
  show ?thesis
    using k d n u0 u1 s z update_usage_stats_keys[of now m result ud]
    by (simp add: async_update_data_def)
qed

theorem keys_added_only_by_reports_witness:
  "valid_datetime (mk_datetime 2024 1 15 10 5 0 0) \<and> store_in_range scenario_store1
   \<and> \<not> daily_due (mk_datetime 2024 1 15 10 5 0 0) scenario_store1
   \<and> \<not> weekly_due (mk_datetime 2024 1 15 10 5 0 0) scenario_store1
   \<and> \<not> monthly_due (mk_datetime 2024 1 15 10 5 0 0) scenario_store1
   \<and> async_update_data (mk_datetime 2024 1 15 10 5 0 0) scenario_store1 = (None, scenario_store1)
   \<and> usage_metadata result_without_metadata = None
   \<and> update_usage_stats (mk_datetime 2024 1 15 10 5 0 0) ''model-y'' result_without_metadata
        scenario_store1 = (None, scenario_store1)
   \<and> usage_metadata (mk_result 1 1 2) \<noteq> None
   \<and> dom (models scenario_store1) = {''model-x''}
   \<and> dom (models (snd (update_usage_stats (mk_datetime 2024 1 15 10 5 0 0) ''model-y''
          (mk_result 1 1 2) scenario_store1))) = {''model-y'', ''model-x''}
   \<and> ''model-x'' \<in> dom (models scenario_store1)
   \<and> snd (model_token_native_value (Some scenario_store1) ''model-x'' ''input'')
        = Some scenario_store1
   \<and> snd (periodic_model_token_native_value (Some scenario_store1) ''model-x'' ''daily''
          ''input'') = Some scenario_store1"
proof -
  let ?t = "mk_datetime 2024 1 15 10 5 0 0"
  have v: "valid_datetime ?t" by code_simp
  have n: "\<not> daily_due ?t scenario_store1" "\<not> weekly_due ?t scenario_store1"
    "\<not> monthly_due ?t scenario_store1" by code_simp+
  have m0: "usage_metadata result_without_metadata = None"
    by (simp add: result_without_metadata_def)
  have m1: "usage_metadata (mk_result 1 1 2) \<noteq> None" by (simp add: mk_result_def)
  have d: "dom (models scenario_store1) = {''model-x''}" by (simp add: scenario_store1_def)
  note a = keys_added_only_by_reports[of ?t scenario_store1 result_without_metadata
      "''model-y''" "''input''" "''daily''" "Some scenario_store1"]
  note b = keys_added_only_by_reports[of ?t scenario_store1 "mk_result 1 1 2"
      "''model-y''" "''input''" "''daily''" "Some scenario_store1"]
  note c = keys_added_only_by_reports[of ?t scenario_store1 "mk_result 1 1 2"
      "''model-x''" "''input''" "''daily''" "Some scenario_store1"]
  note a5 = a[THEN conjunct2, THEN conjunct2, THEN conjunct2, THEN conjunct2, THEN conjunct1]
  note a6 = a[THEN conjunct2, THEN conjunct2, THEN conjunct2, THEN conjunct2, THEN conjunct2,
      THEN conjunct1]
  note b8 = b[THEN conjunct2, THEN conjunct2, THEN conjunct2, THEN conjunct2, THEN conjunct2,
      THEN conjunct2, THEN conjunct2, THEN conjunct1]
  note c9 = c[THEN conjunct2, THEN conjunct2, THEN conjunct2, THEN conjunct2, THEN conjunct2,
      THEN conjunct2, THEN conjunct2, THEN conjunct2, THEN conjunct1]
  have 1: "async_update_data ?t scenario_store1 = (None, scenario_store1)"
    by (rule a5[rule_format]) (simp add: v scenario_store1_in_range n)
  have 2: "update_usage_stats ?t ''model-y'' result_without_metadata scenario_store1
      = (None, scenario_store1)"
    by (rule a6[rule_format]) (rule m0)
  have "dom (models (snd (update_usage_stats ?t ''model-y'' (mk_result 1 1 2)
      scenario_store1))) = insert ''model-y'' (dom (models scenario_store1))"
    by (rule b8[rule_format]) (simp add: v scenario_store1_in_range m1)
  then have 3: "dom (models (snd (update_usage_stats ?t ''model-y'' (mk_result 1 1 2)
      scenario_store1))) = {''model-y'', ''model-x''}"
    unfolding d .
  have x: "''model-x'' \<in> dom (models scenario_store1)" unfolding d by simp
  have 4: "snd (model_token_native_value (Some scenario_store1) ''model-x'' ''input'')
        = Some scenario_store1
     \<and> snd (periodic_model_token_native_value (Some scenario_store1) ''model-x'' ''daily''
          ''input'') = Some scenario_store1"
    by (rule c9[rule_format]) (rule x)
  show ?thesis
    by (intro conjI v scenario_store1_in_range n m0 m1 d 1 2 3 x 4[THEN conjunct1]
        4[THEN conjunct2])
qed

end
